theory Spec2Isabelle
  imports Main "HOL-Library.AList"
begin

section \<open>The timers server: data model\<close>

text \<open>
  The development follows \<^verbatim>\<open>src/index.js\<close>: an Express application with a MongoDB store
  (collections \<^verbatim>\<open>users\<close>, \<^verbatim>\<open>sessions\<close>, \<^verbatim>\<open>timers\<close>), a WebSocket server and the process-wide
  map \<^verbatim>\<open>clients\<close> from the user-id string of a connection to its WebSocket.

  Every handler is modelled as a function from the server state to a result and the new
  state, run to completion: the interleaving of two handlers at an \<^verbatim>\<open>await\<close> is not modelled.
  A thrown exception (a rejected promise of an \<^verbatim>\<open>async\<close> function) is the result \<open>Inl e\<close>;
  what the handler had already written to the state stays written. The exceptions are those
  the source can raise by itself: the call of a method on \<^verbatim>\<open>undefined\<close>, \<^verbatim>\<open>ObjectId\<close> on a
  malformed string and \<^verbatim>\<open>cookie.parse\<close> on a missing header. The store is taken to answer every
  query of these handlers; in the cycle of the tick among other events (\<open>tickFrom\<close>) it may
  reject a query. \<^verbatim>\<open>send\<close> on a WebSocket does not throw.
\<close>

datatype error = TypeError | BSONTypeError | MongoError

type_synonym timestamp = int

text \<open>
  An ObjectId of the MongoDB driver is twelve bytes. The constructor and \<^verbatim>\<open>toString\<close> belong to
  the driver, not to this repository; they are modelled after the driver the source is written
  for (it calls \<^verbatim>\<open>ObjectId(s)\<close> without \<^verbatim>\<open>new\<close>): a string of 12 characters is taken as the bytes,
  a string of 24 hexadecimal digits is decoded, every other string throws.
  Strings are ASCII strings.
\<close>

datatype objectid = Oid string

definition hexval :: "char \<Rightarrow> nat option" where
  "hexval c =
     (let n = (of_char c :: nat) in
      if 48 \<le> n \<and> n \<le> 57 then Some (n - 48)
      else if 97 \<le> n \<and> n \<le> 102 then Some (n - 87)
      else if 65 \<le> n \<and> n \<le> 70 then Some (n - 55)
      else None)"

definition hexdigit :: "nat \<Rightarrow> char" where
  "hexdigit n = (if n < 10 then char_of (48 + n) else char_of (87 + n))"

fun hexDecode :: "string \<Rightarrow> string option" where
  "hexDecode [] = Some []"
| "hexDecode [a] = None"
| "hexDecode (a # b # cs) =
     (case hexval a of
        None \<Rightarrow> None
      | Some h \<Rightarrow>
          (case hexval b of
             None \<Rightarrow> None
           | Some l \<Rightarrow>
               (case hexDecode cs of
                  None \<Rightarrow> None
                | Some bs \<Rightarrow> Some (char_of (16 * h + l) # bs))))"

fun hexEncode :: "string \<Rightarrow> string" where
  "hexEncode [] = []"
| "hexEncode (c # cs) =
     hexdigit ((of_char c :: nat) div 16) # hexdigit ((of_char c :: nat) mod 16) # hexEncode cs"

definition ObjectId :: "string \<Rightarrow> error + objectid" where
  "ObjectId s =
     (if length s = 12 then Inr (Oid s)
      else if length s = 24 then
        (case hexDecode s of None \<Rightarrow> Inl BSONTypeError | Some bs \<Rightarrow> Inr (Oid bs))
      else Inl BSONTypeError)"

fun toString :: "objectid \<Rightarrow> string" where
  "toString (Oid bs) = hexEncode bs"

fun oid_wf :: "objectid \<Rightarrow> bool" where
  "oid_wf (Oid bs) = (length bs = 12)"

text \<open>The documents of the three collections.\<close>

record user =
  user_id :: objectid
  username :: string
  password :: string

record session =
  session_userId :: objectid
  sessionId :: string

text \<open>
  A timer document: \<^verbatim>\<open>{_id, description, start, userId}\<close>, and \<^verbatim>\<open>end\<close> once it has been
  stopped. \<^verbatim>\<open>description\<close> is \<^verbatim>\<open>req.body.description\<close>, absent when the body does not carry it.
\<close>

record timer =
  timer_id :: objectid
  timer_description :: "string option"
  timer_start :: timestamp
  timer_userId :: objectid
  timer_end :: "timestamp option"

record database =
  users :: "user list"
  sessions :: "session list"
  timers :: "timer list"

text \<open>
  \<^verbatim>\<open>class TimerViewModel\<close>: the fields the constructor assigns. \<^verbatim>\<open>progress\<close> and \<^verbatim>\<open>duration\<close> are
  assigned in one branch each, so each is optional.
\<close>

record view =
  vm_id :: objectid
  vm_userId :: objectid
  vm_description :: "string option"
  vm_start :: timestamp
  vm_end :: "timestamp option"
  isActive :: bool
  progress :: "int option"
  duration :: "int option"

datatype msgtype = all_timers | active_timers

text \<open>The object given to \<^verbatim>\<open>JSON.stringify\<close> before \<^verbatim>\<open>ws.send\<close>.\<close>

record message =
  msg_type :: msgtype
  msg_timers :: "view list"

type_synonym ws = nat

text \<open>
  The server state.
  \<^item> \<open>clients\<close> is the JavaScript \<^verbatim>\<open>Map\<close>: keys in insertion order, \<^verbatim>\<open>set\<close> on a present key
    replaces the value in place.
  \<^item> \<open>delivered\<close> logs every \<^verbatim>\<open>ws.send(msg)\<close>, oldest first.
  \<^item> \<open>onClose\<close> holds, for every WebSocket created, the \<^verbatim>\<open>userId\<close> its close handler captured.
  \<^item> \<open>wsCount\<close> numbers the WebSocket objects created so far; the next one gets this number.
  \<^item> \<open>clock\<close> is the sequence of values the process clock returns: the \<open>n\<close>-th evaluation of
    \<^verbatim>\<open>new Date()\<close> yields \<open>clock n\<close>, and \<open>clockReads\<close> counts the evaluations so far.
  \<^item> \<open>idgen\<close> is the sequence of ObjectIds the driver generates for \<^verbatim>\<open>insertOne\<close>.
\<close>

record server =
  db :: database
  clients :: "(string \<times> ws) list"
  delivered :: "(ws \<times> message) list"
  onClose :: "(ws \<times> string) list"
  wsCount :: nat
  clock :: "nat \<Rightarrow> timestamp"
  clockReads :: nat
  idgen :: "nat \<Rightarrow> objectid"
  idsMade :: nat

section \<open>The functions of the source\<close>

text \<open>\<^verbatim>\<open>new Date()\<close>\<close>

definition newDate :: "server \<Rightarrow> timestamp \<times> server" where
  "newDate s = (clock s (clockReads s), s\<lparr>clockReads := Suc (clockReads s)\<rparr>)"

text \<open>
  The constructor of \<^verbatim>\<open>TimerViewModel\<close>. \<^verbatim>\<open>!timer.end\<close> is true exactly when \<^verbatim>\<open>end\<close> is absent
  (a \<^verbatim>\<open>Date\<close> object is never falsy). The clock is read inside the constructor, and only in
  the branch of an active timer.
\<close>

definition TimerViewModel :: "timer \<Rightarrow> server \<Rightarrow> view \<times> server" where
  "TimerViewModel t s =
     (let this = \<lparr>vm_id = timer_id t, vm_userId = timer_userId t,
                  vm_description = timer_description t, vm_start = timer_start t,
                  vm_end = timer_end t, isActive = (timer_end t = None),
                  progress = None, duration = None\<rparr>
      in if isActive this then
           (let (now, s') = newDate s
            in (this\<lparr>progress := Some (now - vm_start this)\<rparr>, s'))
         else
           (this\<lparr>duration := map_option (\<lambda>e. e - vm_start this) (vm_end this)\<rparr>, s))"

text \<open>\<^verbatim>\<open>createTimer\<close>: one clock reading for \<^verbatim>\<open>start\<close>, then \<^verbatim>\<open>insertOne\<close>, which appends the
  document under the id the driver generates.\<close>

definition createTimer :: "objectid \<Rightarrow> string option \<Rightarrow> server \<Rightarrow> objectid \<times> server" where
  "createTimer userId description s =
     (let (now, s1) = newDate s;
          insertedId = idgen s1 (idsMade s1);
          timer = \<lparr>timer_id = insertedId, timer_description = description,
                   timer_start = now, timer_userId = userId, timer_end = None\<rparr>
      in (insertedId,
          s1\<lparr>db := (db s1)\<lparr>timers := timers (db s1) @ [timer]\<rparr>,
             idsMade := Suc (idsMade s1)\<rparr>))"

text \<open>
  \<^verbatim>\<open>findOneAndUpdate(filter, update, {returnDocument: "after"})\<close> of the driver: the first
  document that matches the filter is updated and returned; \<open>None\<close> is the \<^verbatim>\<open>null\<close> value
  of the result when no document matches.
\<close>

fun findOneAndUpdate :: "('a \<Rightarrow> bool) \<Rightarrow> ('a \<Rightarrow> 'a) \<Rightarrow> 'a list \<Rightarrow> ('a list \<times> 'a) option" where
  "findOneAndUpdate p f [] = None"
| "findOneAndUpdate p f (x # xs) =
     (if p x then Some (f x # xs, f x)
      else (case findOneAndUpdate p f xs of
              None \<Rightarrow> None
            | Some (ys, y) \<Rightarrow> Some (x # ys, y)))"

text \<open>
  \<^verbatim>\<open>stopTimer(db, id, userId)\<close>. The filter is \<^verbatim>\<open>{_id: id, userId}\<close>; the update document
  \<^verbatim>\<open>{$set: {end: new Date()}}\<close> is built, and the clock read, before the query runs.
\<close>

definition stopTimer :: "objectid \<Rightarrow> objectid \<Rightarrow> server \<Rightarrow> bool \<times> server" where
  "stopTimer id' userId s =
     (let (now, s1) = newDate s
      in case findOneAndUpdate (\<lambda>t. timer_id t = id' \<and> timer_userId t = userId)
                (\<lambda>t. t\<lparr>timer_end := Some now\<rparr>) (timers (db s1)) of
           None \<Rightarrow> (False, s1)
         | Some (ts, updated) \<Rightarrow> (True, s1\<lparr>db := (db s1)\<lparr>timers := ts\<rparr>\<rparr>))"

text \<open>\<^verbatim>\<open>array.map((t) => new TimerViewModel(t))\<close>, left to right.\<close>

fun viewModels :: "timer list \<Rightarrow> server \<Rightarrow> view list \<times> server" where
  "viewModels [] s = ([], s)"
| "viewModels (t # ts) s =
     (let (v, s1) = TimerViewModel t s;
          (vs, s2) = viewModels ts s1
      in (v # vs, s2))"

definition fetchAllTimers :: "objectid \<Rightarrow> server \<Rightarrow> view list \<times> server" where
  "fetchAllTimers userId s =
     viewModels (filter (\<lambda>t. timer_userId t = userId) (timers (db s))) s"

text \<open>The filter \<^verbatim>\<open>{end: null}\<close> of MongoDB matches the documents whose \<^verbatim>\<open>end\<close> is null or
  missing.\<close>

definition fetchActiveTimers :: "objectid \<Rightarrow> server \<Rightarrow> view list \<times> server" where
  "fetchActiveTimers userId s =
     viewModels (filter (\<lambda>t. timer_userId t = userId \<and> timer_end t = None) (timers (db s))) s"

text \<open>
  \<^verbatim>\<open>sendAllTimersMsg\<close> and \<^verbatim>\<open>sendActiveTimersMsg\<close>: \<^verbatim>\<open>ObjectId(userId)\<close> may throw; then the
  timers are fetched; then \<^verbatim>\<open>clients.get(userId).send(msg)\<close>, where \<^verbatim>\<open>clients.get\<close> yields
  \<^verbatim>\<open>undefined\<close> for a missing key and the call of \<^verbatim>\<open>.send\<close> on it throws a TypeError.
  A WebSocket in \<open>clients\<close> is taken to be open: \<^verbatim>\<open>send\<close> itself does not throw.
\<close>

definition sendAllTimersMsg :: "string \<Rightarrow> server \<Rightarrow> (error + unit) \<times> server" where
  "sendAllTimersMsg userId s =
     (case ObjectId userId of
        Inl e \<Rightarrow> (Inl e, s)
      | Inr uid \<Rightarrow>
          (let (vs, s1) = fetchAllTimers uid s;
               msg = \<lparr>msg_type = all_timers, msg_timers = vs\<rparr>
           in case map_of (clients s1) userId of
                None \<Rightarrow> (Inl TypeError, s1)
              | Some w \<Rightarrow> (Inr (), s1\<lparr>delivered := delivered s1 @ [(w, msg)]\<rparr>)))"

definition sendActiveTimersMsg :: "string \<Rightarrow> server \<Rightarrow> (error + unit) \<times> server" where
  "sendActiveTimersMsg userId s =
     (case ObjectId userId of
        Inl e \<Rightarrow> (Inl e, s)
      | Inr uid \<Rightarrow>
          (let (vs, s1) = fetchActiveTimers uid s;
               msg = \<lparr>msg_type = active_timers, msg_timers = vs\<rparr>
           in case map_of (clients s1) userId of
                None \<Rightarrow> (Inl TypeError, s1)
              | Some w \<Rightarrow> (Inr (), s1\<lparr>delivered := delivered s1 @ [(w, msg)]\<rparr>)))"

subsection \<open>The HTTP handlers\<close>

text \<open>\<^verbatim>\<open>findUserBySessionId\<close>; \<^verbatim>\<open>session.userId\<close> is an ObjectId already, which the constructor
  returns as it is.\<close>

definition findUserBySessionId :: "database \<Rightarrow> string \<Rightarrow> user option" where
  "findUserBySessionId d sid =
     (case find (\<lambda>x. sessionId x = sid) (sessions d) of
        None \<Rightarrow> None
      | Some se \<Rightarrow> find (\<lambda>u. user_id u = session_userId se) (users d))"

text \<open>The middleware \<^verbatim>\<open>auth()\<close>: the value of \<^verbatim>\<open>req.user\<close> from the cookie \<^verbatim>\<open>sessionId\<close>;
  an absent and an empty cookie are both falsy. The cookie is a string: the JSON cookies of
  \<^verbatim>\<open>cookie-parser\<close> (a value with the prefix \<^verbatim>\<open>j:\<close>) are outside the model.\<close>

definition auth :: "string option \<Rightarrow> database \<Rightarrow> user option" where
  "auth cookie d =
     (case cookie of
        None \<Rightarrow> None
      | Some sid \<Rightarrow> if sid = [] then None else findUserBySessionId d sid)"

datatype body = StatusText | IdJson objectid | Text string

datatype response = Response nat body

text \<open>\<^verbatim>\<open>app.post("/api/timers")\<close>: the push is awaited before the response is sent.\<close>

definition postTimers :: "string option \<Rightarrow> string option \<Rightarrow> server \<Rightarrow> (error + response) \<times> server" where
  "postTimers cookie description s =
     (case auth cookie (db s) of
        None \<Rightarrow> (Inr (Response 401 StatusText), s)
      | Some u \<Rightarrow>
          (let (id', s1) = createTimer (user_id u) description s
           in case sendAllTimersMsg (toString (user_id u)) s1 of
                (Inl e, s2) \<Rightarrow> (Inl e, s2)
              | (Inr _, s2) \<Rightarrow> (Inr (Response 201 (IdJson id')), s2)))"

text \<open>\<^verbatim>\<open>app.post("/api/timers/:id/stop")\<close>; \<^verbatim>\<open>ObjectId(id)\<close> throws on a malformed parameter.\<close>

definition postStop :: "string option \<Rightarrow> string \<Rightarrow> server \<Rightarrow> (error + response) \<times> server" where
  "postStop cookie idParam s =
     (case auth cookie (db s) of
        None \<Rightarrow> (Inr (Response 401 StatusText), s)
      | Some u \<Rightarrow>
          (case ObjectId idParam of
             Inl e \<Rightarrow> (Inl e, s)
           | Inr id' \<Rightarrow>
               (let (ok, s1) = stopTimer id' (user_id u) s
                in if ok then
                     (case sendAllTimersMsg (toString (user_id u)) s1 of
                        (Inl e, s2) \<Rightarrow> (Inl e, s2)
                      | (Inr _, s2) \<Rightarrow> (Inr (Response 204 StatusText), s2))
                   else (Inr (Response 404 (Text (''Unknown timer ID: '' @ idParam))), s1))))"

subsection \<open>The WebSocket side\<close>

text \<open>
  \<^verbatim>\<open>cookie.parse(req.headers["cookie"])\<close>. The header is represented by the name/value pairs
  it carries, in order, and is \<open>None\<close> when the request has no \<^verbatim>\<open>Cookie\<close> header: the field is
  then \<^verbatim>\<open>undefined\<close>, on which \<^verbatim>\<open>cookie.parse\<close> throws a TypeError. Of a repeated name the
  first value is kept.
\<close>

definition cookie_parse :: "(string \<times> string) list option \<Rightarrow> error + (string \<rightharpoonup> string)" where
  "cookie_parse header =
     (case header of None \<Rightarrow> Inl TypeError | Some pairs \<Rightarrow> Inr (map_of pairs))"

text \<open>\<^verbatim>\<open>wss.on("connection")\<close> for the new WebSocket \<open>w\<close> and \<^verbatim>\<open>req.userId\<close>.\<close>

definition connection :: "ws \<Rightarrow> string \<Rightarrow> server \<Rightarrow> (error + unit) \<times> server" where
  "connection w userId s =
     sendAllTimersMsg userId
       (s\<lparr>clients := AList.update userId w (clients s),
          onClose := (w, userId) # onClose s\<rparr>)"

datatype sockop = Write string | Destroy

datatype upgraded = Unauthorized "sockop list" | Connected ws "error + unit"

definition unauthorized :: "sockop list" where
  "unauthorized =
     [Write (''HTTP/1.1 401 Unauthorized'' @ [CHR 0x0D, CHR 0x0A, CHR 0x0D, CHR 0x0A]), Destroy]"

text \<open>
  \<^verbatim>\<open>server.on("upgrade")\<close>. \<^verbatim>\<open>!userId\<close> holds for an absent and for an empty cookie. Otherwise
  \<^verbatim>\<open>wss.handleUpgrade\<close> completes the handshake with a new WebSocket and the connection
  handler runs; what that handler's promise settles to is the second component of
  \<open>Connected\<close>.
\<close>

definition upgrade :: "(string \<times> string) list option \<Rightarrow> server \<Rightarrow> (error + upgraded) \<times> server" where
  "upgrade header s =
     (case cookie_parse header of
        Inl e \<Rightarrow> (Inl e, s)
      | Inr cookies \<Rightarrow>
          (case cookies ''userId'' of
             None \<Rightarrow> (Inr (Unauthorized unauthorized), s)
           | Some userId \<Rightarrow>
               if userId = [] then (Inr (Unauthorized unauthorized), s)
               else
                 (let w = wsCount s;
                      (r, s1) = connection w userId (s\<lparr>wsCount := Suc w\<rparr>)
                  in (Inr (Connected w r), s1))))"

text \<open>The close handler of WebSocket \<open>w\<close>: \<^verbatim>\<open>clients.delete(userId)\<close> with the captured id.\<close>

definition close :: "ws \<Rightarrow> server \<Rightarrow> server" where
  "close w s =
     (case map_of (onClose s) w of
        None \<Rightarrow> s
      | Some userId \<Rightarrow> s\<lparr>clients := AList.delete userId (clients s)\<rparr>)"

text \<open>The body of the \<^verbatim>\<open>setInterval\<close> callback: the loop over \<^verbatim>\<open>clients.keys()\<close>, left by the
  first exception. This is the cycle during which the store answers every query and no
  other event is handled while the loop awaits it, so that the keys are those of the
  registry at the start; the cycle among other events is \<open>tickFrom\<close> below.\<close>

fun tickLoop :: "string list \<Rightarrow> server \<Rightarrow> (error + unit) \<times> server" where
  "tickLoop [] s = (Inr (), s)"
| "tickLoop (userId # rest) s =
     (case sendActiveTimersMsg userId s of
        (Inl e, s1) \<Rightarrow> (Inl e, s1)
      | (Inr _, s1) \<Rightarrow> tickLoop rest s1)"

definition tick :: "server \<Rightarrow> (error + unit) \<times> server" where
  "tick s = tickLoop (map fst (clients s)) s"

subsection \<open>Runs of the server\<close>

text \<open>
  The events the server reacts to. The signup, login and logout handlers read and write only
  the collections \<^verbatim>\<open>users\<close> and \<^verbatim>\<open>sessions\<close>; the event \<open>Accounts\<close> stands for them and puts
  arbitrary new contents there. \<open>step\<close> keeps the state a handler has left, also when the
  handler has raised; the runs of a process that an uncaught exception or an unhandled
  rejection ends are those no handler raises in (\<open>survives\<close> below).
\<close>

datatype event =
    Upgrade "(string \<times> string) list option"
  | Close ws
  | PostTimers "string option" "string option"
  | PostStop "string option" string
  | Tick
  | Accounts "user list" "session list"

fun step :: "server \<Rightarrow> event \<Rightarrow> server" where
  "step s (Upgrade header) = snd (upgrade header s)"
| "step s (Close w) = close w s"
| "step s (PostTimers cookie description) = snd (postTimers cookie description s)"
| "step s (PostStop cookie idParam) = snd (postStop cookie idParam s)"
| "step s Tick = snd (tick s)"
| "step s (Accounts us ses) = s\<lparr>db := (db s)\<lparr>users := us, sessions := ses\<rparr>\<rparr>"

definition run :: "event list \<Rightarrow> server \<Rightarrow> server" where
  "run es s = foldl step s es"

text \<open>The state when the process starts listening: nothing registered, nothing sent.\<close>

definition started :: "server \<Rightarrow> bool" where
  "started s \<longleftrightarrow> clients s = [] \<and> delivered s = [] \<and> onClose s = [] \<and> wsCount s = 0"

subsection \<open>The projection as the specification words it\<close>

text \<open>
  The specification describes the projection as a function \<^verbatim>\<open>project(timerRecord, now)\<close> of the
  record and a given time. \<open>spec_project\<close> is that function, written from the specification's
  data model; it is compared with the constructor of the source below.
\<close>

definition spec_project :: "timer \<Rightarrow> timestamp \<Rightarrow> view" where
  "spec_project t now =
     \<lparr>vm_id = timer_id t, vm_userId = timer_userId t,
      vm_description = timer_description t, vm_start = timer_start t,
      vm_end = timer_end t, isActive = (timer_end t = None),
      progress = (case timer_end t of None \<Rightarrow> Some (now - timer_start t) | Some e \<Rightarrow> None),
      duration = (case timer_end t of None \<Rightarrow> None | Some e \<Rightarrow> Some (e - timer_start t))\<rparr>"

text \<open>The timer document a view was made from: the constructor copies every field.\<close>

definition timer_of :: "view \<Rightarrow> timer" where
  "timer_of v =
     \<lparr>timer_id = vm_id v, timer_description = vm_description v, timer_start = vm_start v,
      timer_userId = vm_userId v, timer_end = vm_end v\<rparr>"

subsection \<open>Example data\<close>

definition alice :: objectid where
  "alice = Oid ''aaaaaaaaaaaa''"

definition bob :: objectid where
  "bob = Oid ''bbbbbbbbbbbb''"

text \<open>A freshly started server with two accounts and a session each; the clock advances by
  one second from reading to reading.\<close>

definition server0 :: server where
  "server0 =
     \<lparr>db = \<lparr>users = [\<lparr>user_id = alice, username = ''alice'', password = ''pa''\<rparr>,
                      \<lparr>user_id = bob, username = ''bob'', password = ''pb''\<rparr>],
             sessions = [\<lparr>session_userId = alice, sessionId = ''SA''\<rparr>,
                         \<lparr>session_userId = bob, sessionId = ''SB''\<rparr>],
             timers = []\<rparr>,
      clients = [], delivered = [], onClose = [], wsCount = 0,
      clock = (\<lambda>n. 1000 * int n), clockReads = 0,
      idgen = (\<lambda>n. Oid (''ttttttttttt'' @ [char_of (48 + n)])), idsMade = 0\<rparr>"

definition timer0 :: timer where
  "timer0 =
     \<lparr>timer_id = Oid ''ttttttttttt0'', timer_description = Some ''write spec'',
      timer_start = 0, timer_userId = alice, timer_end = None\<rparr>"

subsection \<open>Invariants of the registry\<close>

text \<open>
  The registry holds one entry for a key, a WebSocket under one key only, and only
  WebSockets that have been created.
\<close>

definition registry_inv :: "server \<Rightarrow> bool" where
  "registry_inv s \<longleftrightarrow>
     distinct (map fst (clients s)) \<and> distinct (map snd (clients s)) \<and>
     list_all (\<lambda>p. snd p < wsCount s) (clients s)"

text \<open>
  What a push may change: \<open>s'\<close> has the registry, the close handlers and the WebSockets of
  \<open>s\<close>, and what it has sent beyond \<open>s\<close> went to WebSockets of the registry.
\<close>

definition pushes_only :: "server \<Rightarrow> server \<Rightarrow> bool" where
  "pushes_only s s' \<longleftrightarrow>
     clients s' = clients s \<and> onClose s' = onClose s \<and> wsCount s' = wsCount s \<and>
     (\<exists>ms. delivered s' = delivered s @ ms \<and> fst ` set ms \<subseteq> snd ` set (clients s))"

text \<open>
  WebSocket \<open>w\<close> is outside the registry of \<open>s'\<close> and has received in \<open>s'\<close> what it had
  received in \<open>s\<close>.
\<close>

definition silent :: "ws \<Rightarrow> server \<Rightarrow> server \<Rightarrow> bool" where
  "silent w s s' \<longleftrightarrow>
     w \<notin> snd ` set (clients s') \<and> w < wsCount s' \<and>
     filter (\<lambda>m. fst m = w) (delivered s') = filter (\<lambda>m. fst m = w) (delivered s)"

text \<open>Alice has opened her channel and started a timer.\<close>

definition server1 :: server where
  "server1 = run [Upgrade (Some [(''userId'', toString alice)]),
                  PostTimers (Some ''SA'') (Some ''write spec'')] server0"

text \<open>Alice's channel has closed.\<close>

definition server2 :: server where
  "server2 = step server1 (Close 0)"

subsection \<open>The messages of a push\<close>

text \<open>
  \<open>d\<close> is a send of the message \<^verbatim>\<open>sendActiveTimersMsg\<close> builds for \<open>userId\<close> in state \<open>s\<close>: it
  goes to the WebSocket registered for \<open>userId\<close>, has type \<^verbatim>\<open>active_timers\<close>, and its views
  are those of exactly the timers of the user with that id that have no \<^verbatim>\<open>end\<close>, in the order
  of the collection.
\<close>

definition active_push :: "server \<Rightarrow> string \<Rightarrow> ws \<times> message \<Rightarrow> bool" where
  "active_push s userId d \<longleftrightarrow>
     map_of (clients s) userId = Some (fst d) \<and> msg_type (snd d) = active_timers \<and>
     (case ObjectId userId of
        Inl e \<Rightarrow> False
      | Inr uid \<Rightarrow>
          map timer_of (msg_timers (snd d)) =
            filter (\<lambda>t. timer_userId t = uid \<and> timer_end t = None) (timers (db s)))"

text \<open>The same for \<^verbatim>\<open>sendAllTimersMsg\<close>: type \<^verbatim>\<open>all_timers\<close>, every timer of the user.\<close>

definition all_push :: "server \<Rightarrow> string \<Rightarrow> ws \<times> message \<Rightarrow> bool" where
  "all_push s userId d \<longleftrightarrow>
     map_of (clients s) userId = Some (fst d) \<and> msg_type (snd d) = all_timers \<and>
     (case ObjectId userId of
        Inl e \<Rightarrow> False
      | Inr uid \<Rightarrow>
          map timer_of (msg_timers (snd d)) =
            filter (\<lambda>t. timer_userId t = uid) (timers (db s)))"

subsection \<open>Handlers that raise\<close>

text \<open>
  Nothing in the source catches what a handler throws. \<open>raised s e\<close> says that the handler
  of event \<open>e\<close>, run in state \<open>s\<close>, throws or leaves a rejected promise behind (for an
  upgrade: the listener itself or the connection handler it starts). \<open>step\<close> goes on from
  the state such a handler left, as a runtime does that only reports an unhandled rejection;
  \<open>survives es s\<close> says that no handler raises along the run of \<open>es\<close> from \<open>s\<close>, so that the
  run is one of every runtime.
\<close>

fun raised :: "server \<Rightarrow> event \<Rightarrow> bool" where
  "raised s (Upgrade header) =
     (case fst (upgrade header s) of
        Inl e \<Rightarrow> True
      | Inr (Unauthorized ops) \<Rightarrow> False
      | Inr (Connected w r) \<Rightarrow> isl r)"
| "raised s (Close w) = False"
| "raised s (PostTimers cookie description) = isl (fst (postTimers cookie description s))"
| "raised s (PostStop cookie idParam) = isl (fst (postStop cookie idParam s))"
| "raised s Tick = isl (fst (tick s))"
| "raised s (Accounts us ses) = False"

fun survives :: "event list \<Rightarrow> server \<Rightarrow> bool" where
  "survives [] s = True"
| "survives (e # es) s = (\<not> raised s e \<and> survives es (step s e))"

text \<open>
  The rejected promise of the \<^verbatim>\<open>setInterval\<close> callback has no handler. What becomes of the
  process is the runtime's mode for unhandled rejections: \<^verbatim>\<open>throw\<close>, the default of Node 15 and
  later, raises the rejection as an uncaught exception, which ends the process; \<^verbatim>\<open>warn\<close>,
  the default before, prints a warning.
\<close>

datatype unhandled_rejections = Warn | Throw

definition fatal :: "unhandled_rejections \<Rightarrow> error + unit \<Rightarrow> bool" where
  "fatal mode r \<longleftrightarrow> mode = Throw \<and> isl r"

subsection \<open>The tick while other events are handled\<close>

text \<open>
  \<open>tickLoop\<close> above is the cycle in which the store answers every query and nothing else is
  handled while the cycle awaits it. In general each iteration
  \<^verbatim>\<open>await sendActiveTimersMsg(await createDbClient(), userId)\<close> awaits the answer of the store
  to \<^verbatim>\<open>find(...).toArray()\<close>, and the event loop handles other events in the meantime; the
  store may also reject the query. (The promise \<^verbatim>\<open>createDbClient\<close> awaits is the connection
  made when the process started; it is settled, and awaiting it lets no event in.) An \<open>awaited\<close> is what happens during one such wait: the
  events handled before the store serves the query, whether the store answers or rejects,
  and the events handled after that and before the push goes on. Each of these events is
  handled by \<open>step\<close>.
\<close>

record awaited =
  earlier :: "event list"
  answered :: bool
  later :: "event list"

text \<open>
  \<^verbatim>\<open>clients.keys()\<close> is a live iterator: it holds a position in the entries of the map, a
  deleted entry no longer counts, and an entry added during the loop is reached at the end.
  The position is the number \<open>i\<close> of entries before it; \<open>cursor old new i\<close> is the position
  after a handler has changed the registry from \<open>old\<close> to \<open>new\<close> (a handler deletes one key,
  or sets one key, or leaves the registry alone).
\<close>

definition cursor :: "(string \<times> ws) list \<Rightarrow> (string \<times> ws) list \<Rightarrow> nat \<Rightarrow> nat" where
  "cursor old new i = length (filter (\<lambda>k. map_of new k \<noteq> None) (take i (map fst old)))"

fun handle :: "event list \<Rightarrow> nat \<times> server \<Rightarrow> nat \<times> server" where
  "handle [] c = c"
| "handle (e # es) (i, s) = handle es (cursor (clients s) (clients (step s e)) i, step s e)"

text \<open>
  \<^verbatim>\<open>sendActiveTimersMsg\<close> during the wait \<open>a\<close>, with the iterator at position \<open>i\<close>:
  \<^verbatim>\<open>ObjectId(userId)\<close> is evaluated before the query is sent; the documents are those the
  store holds when it serves the query; the views are made, and \<^verbatim>\<open>clients.get(userId)\<close> is
  looked up, when the push goes on. A rejected query rejects the push with the driver's
  error.
\<close>

definition sendActiveTimersMsg_in ::
    "awaited \<Rightarrow> string \<Rightarrow> nat \<times> server \<Rightarrow> (error + unit) \<times> nat \<times> server" where
  "sendActiveTimersMsg_in a userId c =
     (case ObjectId userId of
        Inl e \<Rightarrow> (Inl e, c)
      | Inr uid \<Rightarrow>
          (let (i1, s1) = handle (earlier a) c
           in if answered a then
                (let docs = filter (\<lambda>t. timer_userId t = uid \<and> timer_end t = None)
                              (timers (db s1));
                     (i2, s2) = handle (later a) (i1, s1);
                     (vs, s3) = viewModels docs s2;
                     msg = \<lparr>msg_type = active_timers, msg_timers = vs\<rparr>
                 in case map_of (clients s3) userId of
                      None \<Rightarrow> (Inl TypeError, i2, s3)
                    | Some w \<Rightarrow> (Inr (), i2, s3\<lparr>delivered := delivered s3 @ [(w, msg)]\<rparr>))
              else (Inl MongoError, handle (later a) (i1, s1))))"

text \<open>
  The loop of the callback from position \<open>i\<close> of the iterator, with one \<open>awaited\<close> for each
  iteration; the iterations left when the list is used up run as in \<open>tickLoop\<close>. The
  first push that raises ends the loop.
\<close>

fun tickFrom :: "awaited list \<Rightarrow> nat \<Rightarrow> server \<Rightarrow> (error + unit) \<times> server" where
  "tickFrom [] i s = tickLoop (drop i (map fst (clients s))) s"
| "tickFrom (a # as) i s =
     (if length (clients s) \<le> i then (Inr (), s)
      else (case sendActiveTimersMsg_in a (fst (clients s ! i)) (Suc i, s) of
              (Inl e, c) \<Rightarrow> (Inl e, snd c)
            | (Inr u, c) \<Rightarrow> tickFrom as (fst c) (snd c)))"

definition tickWith :: "awaited list \<Rightarrow> server \<Rightarrow> (error + unit) \<times> server" where
  "tickWith as s = tickFrom as 0 s"

text \<open>The wait during which the store answers and nothing else is handled.\<close>

definition quiet :: awaited where
  "quiet = \<lparr>earlier = [], answered = True, later = []\<rparr>"


text \<open>Bob and Alice have opened their channels, in this order, and Alice has started a
  timer.\<close>

definition server5 :: server where
  "server5 = run [Upgrade (Some [(''userId'', toString bob)]),
                  Upgrade (Some [(''userId'', toString alice)]),
                  PostTimers (Some ''SA'') (Some ''write spec'')] server0"

section \<open>Properties\<close>

subsection \<open>Basic facts\<close>

text \<open>\<^verbatim>\<open>ObjectId(id.toString())\<close> is \<open>id\<close>.\<close>

lemma hexval_hexdigit: "n < 16 \<Longrightarrow> hexval (hexdigit n) = Some n"
  by (auto simp: hexval_def hexdigit_def Let_def)

lemma of_char_less_256: "(of_char c :: nat) < 256"
proof -
  have "(of_char c :: nat) mod 256 < 256" by simp
  then show ?thesis by (simp only: of_char_mod_256)
qed

lemma of_char_div_16: "(of_char c :: nat) div 16 < 16"
proof -
  have "(of_char c :: nat) < 16 * 16"
    using of_char_less_256 [of c] by simp
  then show ?thesis by (rule less_mult_imp_div_less)
qed

lemma hexDecode_hexEncode: "hexDecode (hexEncode bs) = Some bs"
  by (induction bs) (simp_all add: hexval_hexdigit of_char_div_16)

lemma length_hexEncode: "length (hexEncode bs) = 2 * length bs"
  by (induction bs) simp_all

lemma ObjectId_toString: "oid_wf u \<Longrightarrow> ObjectId (toString u) = Inr u"
  by (cases u) (simp add: ObjectId_def length_hexEncode hexDecode_hexEncode)

lemma TimerViewModel_state:
  "snd (TimerViewModel t s) =
     s\<lparr>clockReads := clockReads s + (if timer_end t = None then 1 else 0)\<rparr>"
  by (cases "timer_end t") (simp_all add: TimerViewModel_def newDate_def)

lemma viewModels_state:
  "snd (viewModels ts s) =
     s\<lparr>clockReads := clockReads s + length (filter (\<lambda>t. timer_end t = None) ts)\<rparr>"
proof (induction ts arbitrary: s)
  case Nil
  then show ?case by simp
next
  case (Cons t ts)
  show ?case
    using Cons.IH [of "snd (TimerViewModel t s)"]
    by (simp add: split_beta TimerViewModel_state)
qed

lemma timer_of_TimerViewModel: "timer_of (fst (TimerViewModel t s)) = t"
  by (cases "timer_end t") (simp_all add: TimerViewModel_def newDate_def timer_of_def)

lemma timer_of_viewModels: "map timer_of (fst (viewModels ts s)) = ts"
  by (induction ts arbitrary: s) (simp_all add: split_beta timer_of_TimerViewModel)

lemma projection_TimerViewModel: "\<exists>now. fst (TimerViewModel t s) = spec_project t now"
  by (cases "timer_end t") (simp_all add: TimerViewModel_def newDate_def spec_project_def)

lemma projection_viewModels:
  "list_all2 (\<lambda>v t. \<exists>now. v = spec_project t now) (fst (viewModels ts s)) ts"
  by (induction ts arbitrary: s) (simp_all add: split_beta projection_TimerViewModel)

lemma sendAllTimersMsg_invalid:
  "ObjectId userId = Inl e \<Longrightarrow> sendAllTimersMsg userId s = (Inl e, s)"
  by (simp add: sendAllTimersMsg_def)

lemma sendAllTimersMsg_unregistered:
  "ObjectId userId = Inr uid \<Longrightarrow> map_of (clients s) userId = None \<Longrightarrow>
   sendAllTimersMsg userId s = (Inl TypeError, snd (fetchAllTimers uid s))"
  by (simp add: sendAllTimersMsg_def split_beta fetchAllTimers_def viewModels_state)

lemma sendAllTimersMsg_registered:
  "ObjectId userId = Inr uid \<Longrightarrow> map_of (clients s) userId = Some w \<Longrightarrow>
   sendAllTimersMsg userId s =
     (Inr (), (snd (fetchAllTimers uid s))
        \<lparr>delivered := delivered s @
           [(w, \<lparr>msg_type = all_timers, msg_timers = fst (fetchAllTimers uid s)\<rparr>)]\<rparr>)"
  by (simp add: sendAllTimersMsg_def split_beta fetchAllTimers_def viewModels_state)

lemma sendActiveTimersMsg_invalid:
  "ObjectId userId = Inl e \<Longrightarrow> sendActiveTimersMsg userId s = (Inl e, s)"
  by (simp add: sendActiveTimersMsg_def)

lemma sendActiveTimersMsg_unregistered:
  "ObjectId userId = Inr uid \<Longrightarrow> map_of (clients s) userId = None \<Longrightarrow>
   sendActiveTimersMsg userId s = (Inl TypeError, snd (fetchActiveTimers uid s))"
  by (simp add: sendActiveTimersMsg_def split_beta fetchActiveTimers_def viewModels_state)

lemma sendActiveTimersMsg_registered:
  "ObjectId userId = Inr uid \<Longrightarrow> map_of (clients s) userId = Some w \<Longrightarrow>
   sendActiveTimersMsg userId s =
     (Inr (), (snd (fetchActiveTimers uid s))
        \<lparr>delivered := delivered s @
           [(w, \<lparr>msg_type = active_timers, msg_timers = fst (fetchActiveTimers uid s)\<rparr>)]\<rparr>)"
  by (simp add: sendActiveTimersMsg_def split_beta fetchActiveTimers_def viewModels_state)

lemma fetch_frame:
  "clients (snd (fetchAllTimers uid s)) = clients s"
  "delivered (snd (fetchAllTimers uid s)) = delivered s"
  "db (snd (fetchAllTimers uid s)) = db s"
  "onClose (snd (fetchAllTimers uid s)) = onClose s"
  "wsCount (snd (fetchAllTimers uid s)) = wsCount s"
  "clients (snd (fetchActiveTimers uid s)) = clients s"
  "delivered (snd (fetchActiveTimers uid s)) = delivered s"
  "db (snd (fetchActiveTimers uid s)) = db s"
  "onClose (snd (fetchActiveTimers uid s)) = onClose s"
  "wsCount (snd (fetchActiveTimers uid s)) = wsCount s"
  by (simp_all add: fetchAllTimers_def fetchActiveTimers_def viewModels_state)

subsection \<open>The projection\<close>

text \<open>
  Claim C4. For every timer record and every time of projection (the value the clock returns
  when the constructor reads it), the view's \<open>isActive\<close> equals "\<open>end\<close> is absent", an active
  timer's view has \<open>progress\<close> = now - start and no \<open>duration\<close>, a stopped timer's view has
  \<open>duration\<close> = end - start and no \<open>progress\<close>: exactly one of the two fields is present.
\<close>

theorem TimerViewModel_fields:
  "isActive (fst (TimerViewModel t s)) = (timer_end t = None) \<and>
   progress (fst (TimerViewModel t s)) =
     (case timer_end t of None \<Rightarrow> Some (clock s (clockReads s) - timer_start t) | Some e \<Rightarrow> None) \<and>
   duration (fst (TimerViewModel t s)) =
     (case timer_end t of None \<Rightarrow> None | Some e \<Rightarrow> Some (e - timer_start t)) \<and>
   (progress (fst (TimerViewModel t s)) = None) \<noteq> (duration (fst (TimerViewModel t s)) = None)"
  by (cases "timer_end t") (simp_all add: TimerViewModel_def newDate_def)

text \<open>
  Claim C5, as the specification states it, fails: the constructor takes the record only and
  reads the process clock itself. Two projections of one record, one after the other, give
  different views.
\<close>

theorem TimerViewModel_reads_clock_counterexample:
  "fst (TimerViewModel timer0 server0) \<noteq>
     fst (TimerViewModel timer0 (snd (TimerViewModel timer0 server0))) \<and>
   clockReads (snd (TimerViewModel timer0 server0)) \<noteq> clockReads server0"
  by (simp add: TimerViewModel_def newDate_def timer0_def server0_def)

text \<open>
  Claim C5, amended. The view is a function of the record and of the process clock, which the
  constructor reads itself, once and only for an active timer: the view is the
  specification's projection at the value read, and a stopped timer's view is the same at
  every time and leaves the clock unread.
\<close>

theorem TimerViewModel_refines_spec_project:
  "TimerViewModel t s =
     (case timer_end t of
        None \<Rightarrow> (spec_project t (clock s (clockReads s)), s\<lparr>clockReads := Suc (clockReads s)\<rparr>)
      | Some e \<Rightarrow> (spec_project t now, s))"
  by (cases "timer_end t") (simp_all add: TimerViewModel_def newDate_def spec_project_def)

subsection \<open>What a push changes\<close>

lemma pushes_only_refl: "pushes_only s s"
  by (simp add: pushes_only_def)

lemma pushes_only_trans:
  assumes "pushes_only s s1" and "pushes_only s1 s2"
  shows "pushes_only s s2"
proof -
  from assms(1) obtain ms where
    a: "clients s1 = clients s" "onClose s1 = onClose s" "wsCount s1 = wsCount s"
       "delivered s1 = delivered s @ ms" "fst ` set ms \<subseteq> snd ` set (clients s)"
    by (auto simp: pushes_only_def)
  from assms(2) obtain ns where
    b: "clients s2 = clients s1" "onClose s2 = onClose s1" "wsCount s2 = wsCount s1"
       "delivered s2 = delivered s1 @ ns" "fst ` set ns \<subseteq> snd ` set (clients s1)"
    by (auto simp: pushes_only_def)
  have "delivered s2 = delivered s @ (ms @ ns)"
    using a(4) b(4) by simp
  moreover have "fst ` set (ms @ ns) \<subseteq> snd ` set (clients s)"
    using a(1) a(5) b(5) by auto
  ultimately show ?thesis
    unfolding pushes_only_def using a(1-3) b(1-3) by (intro conjI exI [of _ "ms @ ns"]) simp_all
qed

lemma pushes_only_quiet:
  "clients s' = clients s \<Longrightarrow> onClose s' = onClose s \<Longrightarrow> wsCount s' = wsCount s \<Longrightarrow>
   delivered s' = delivered s \<Longrightarrow> pushes_only s s'"
  by (simp add: pushes_only_def)

lemma pushes_only_fetchAll: "pushes_only s (snd (fetchAllTimers uid s))"
  by (rule pushes_only_quiet) (simp_all add: fetch_frame)

lemma pushes_only_fetchActive: "pushes_only s (snd (fetchActiveTimers uid s))"
  by (rule pushes_only_quiet) (simp_all add: fetch_frame)

lemma registered_in_range: "map_of al k = Some w \<Longrightarrow> w \<in> snd ` set al"
  by (metis map_of_SomeD snd_conv image_eqI)

lemma pushes_only_sendAll: "pushes_only s (snd (sendAllTimersMsg userId s))"
proof (cases "ObjectId userId")
  case (Inl e)
  then show ?thesis by (simp add: sendAllTimersMsg_invalid pushes_only_refl)
next
  case (Inr uid)
  show ?thesis
  proof (cases "map_of (clients s) userId")
    case None
    with Inr show ?thesis
      by (simp add: sendAllTimersMsg_unregistered pushes_only_fetchAll)
  next
    case (Some w)
    with Inr show ?thesis
      by (simp add: sendAllTimersMsg_registered pushes_only_def fetch_frame registered_in_range)
  qed
qed

lemma pushes_only_sendActive: "pushes_only s (snd (sendActiveTimersMsg userId s))"
proof (cases "ObjectId userId")
  case (Inl e)
  then show ?thesis by (simp add: sendActiveTimersMsg_invalid pushes_only_refl)
next
  case (Inr uid)
  show ?thesis
  proof (cases "map_of (clients s) userId")
    case None
    with Inr show ?thesis
      by (simp add: sendActiveTimersMsg_unregistered pushes_only_fetchActive)
  next
    case (Some w)
    with Inr show ?thesis
      by (simp add: sendActiveTimersMsg_registered pushes_only_def fetch_frame registered_in_range)
  qed
qed

lemma createTimer_frame:
  "clients (snd (createTimer u d s)) = clients s"
  "onClose (snd (createTimer u d s)) = onClose s"
  "wsCount (snd (createTimer u d s)) = wsCount s"
  "delivered (snd (createTimer u d s)) = delivered s"
  by (simp_all add: createTimer_def newDate_def Let_def)

lemma stopTimer_frame:
  "clients (snd (stopTimer i u s)) = clients s"
  "onClose (snd (stopTimer i u s)) = onClose s"
  "wsCount (snd (stopTimer i u s)) = wsCount s"
  "delivered (snd (stopTimer i u s)) = delivered s"
  by (simp_all add: stopTimer_def newDate_def Let_def split: option.splits prod.splits)

lemma pushes_only_createTimer: "pushes_only s (snd (createTimer u d s))"
  by (rule pushes_only_quiet) (simp_all add: createTimer_frame)

lemma pushes_only_stopTimer: "pushes_only s (snd (stopTimer i u s))"
  by (rule pushes_only_quiet) (simp_all add: stopTimer_frame)

lemma postTimers_state:
  "snd (postTimers cookie d s) =
     (case auth cookie (db s) of
        None \<Rightarrow> s
      | Some u \<Rightarrow> snd (sendAllTimersMsg (toString (user_id u)) (snd (createTimer (user_id u) d s))))"
  by (simp add: postTimers_def split_beta split: option.splits sum.splits prod.splits)

lemma pushes_only_postTimers: "pushes_only s (snd (postTimers cookie d s))"
  unfolding postTimers_state
  by (auto split: option.splits
      intro: pushes_only_refl pushes_only_trans [OF pushes_only_createTimer pushes_only_sendAll])

lemma postStop_state:
  "snd (postStop cookie p s) =
     (case auth cookie (db s) of
        None \<Rightarrow> s
      | Some u \<Rightarrow>
          (case ObjectId p of
             Inl e \<Rightarrow> s
           | Inr i \<Rightarrow>
               if fst (stopTimer i (user_id u) s)
               then snd (sendAllTimersMsg (toString (user_id u)) (snd (stopTimer i (user_id u) s)))
               else snd (stopTimer i (user_id u) s)))"
  by (simp add: postStop_def split_beta split: option.splits sum.splits prod.splits)

lemma pushes_only_postStop: "pushes_only s (snd (postStop cookie p s))"
  unfolding postStop_state
  by (auto split: option.splits sum.splits
      intro: pushes_only_refl pushes_only_stopTimer
        pushes_only_trans [OF pushes_only_stopTimer pushes_only_sendAll])

lemma pushes_only_tickLoop: "pushes_only s (snd (tickLoop ks s))"
proof (induction ks arbitrary: s)
  case Nil
  show ?case by (simp add: pushes_only_refl)
next
  case (Cons k ks)
  show ?case
  proof (cases "sendActiveTimersMsg k s")
    case (Pair r s1)
    have p: "pushes_only s s1"
      using pushes_only_sendActive [of s k] Pair by simp
    show ?thesis
    proof (cases r)
      case (Inl e)
      with Pair p show ?thesis by simp
    next
      case (Inr u)
      with Pair show ?thesis
        using pushes_only_trans [OF p Cons.IH [of s1]] by simp
    qed
  qed
qed

lemma pushes_only_tick: "pushes_only s (snd (tick s))"
  by (simp add: tick_def pushes_only_tickLoop)

subsection \<open>The upgrade handler and the registry\<close>

lemma upgrade_no_header: "upgrade None s = (Inl TypeError, s)"
  by (simp add: upgrade_def cookie_parse_def)

lemma upgrade_no_userId:
  "map_of pairs ''userId'' = None \<or> map_of pairs ''userId'' = Some [] \<Longrightarrow>
   upgrade (Some pairs) s = (Inr (Unauthorized unauthorized), s)"
  by (auto simp: upgrade_def cookie_parse_def)

lemma upgrade_userId:
  "map_of pairs ''userId'' = Some v \<Longrightarrow> v \<noteq> [] \<Longrightarrow>
   upgrade (Some pairs) s =
     (Inr (Connected (wsCount s) (fst (connection (wsCount s) v (s\<lparr>wsCount := Suc (wsCount s)\<rparr>)))),
      snd (connection (wsCount s) v (s\<lparr>wsCount := Suc (wsCount s)\<rparr>)))"
  by (simp add: upgrade_def cookie_parse_def split_beta Let_def)

text \<open>The state in which the connection handler sends: the registry has the new entry.\<close>

lemma connection_pushes_only:
  "pushes_only (s\<lparr>clients := AList.update v w (clients s), onClose := (w, v) # onClose s\<rparr>)
     (snd (connection w v s))"
  by (simp add: connection_def pushes_only_sendAll)

lemma upgrade_cases:
  obtains (same) "snd (upgrade h s) = s"
  | (connected) pairs v where "h = Some pairs" "map_of pairs ''userId'' = Some v" "v \<noteq> []"
      "pushes_only (s\<lparr>wsCount := Suc (wsCount s), clients := AList.update v (wsCount s) (clients s),
                       onClose := (wsCount s, v) # onClose s\<rparr>) (snd (upgrade h s))"
proof (cases h)
  case None
  then show ?thesis using same by (simp add: upgrade_no_header)
next
  case (Some pairs)
  show ?thesis
  proof (cases "map_of pairs ''userId''")
    case None
    with Some show ?thesis using same by (simp add: upgrade_no_userId)
  next
    case (Some v)
    note v = this
    show ?thesis
    proof (cases "v = []")
      case True
      with v \<open>h = Some pairs\<close> show ?thesis using same by (simp add: upgrade_no_userId)
    next
      case False
      have "pushes_only (s\<lparr>wsCount := Suc (wsCount s), clients := AList.update v (wsCount s) (clients s),
                       onClose := (wsCount s, v) # onClose s\<rparr>) (snd (upgrade h s))"
        using connection_pushes_only [where s = "s\<lparr>wsCount := Suc (wsCount s)\<rparr>" and v = v and w = "wsCount s"]
        by (simp add: \<open>h = Some pairs\<close> upgrade_userId [OF v False])
      with v False \<open>h = Some pairs\<close> show ?thesis using connected by blast
    qed
  qed
qed

lemma set_update_subset: "set (AList.update k v al) \<subseteq> insert (k, v) (set al)"
  by (induction al) auto

lemma set_update_distinct:
  "distinct (map fst al) \<Longrightarrow> set (AList.update k v al) = insert (k, v) {p \<in> set al. fst p \<noteq> k}"
  by (induction al) (auto simp: rev_image_eqI)

lemma distinct_snd_update:
  "distinct (map snd al) \<Longrightarrow> v \<notin> snd ` set al \<Longrightarrow> distinct (map snd (AList.update k v al))"
proof (induction al)
  case Nil
  then show ?case by simp
next
  case (Cons p al)
  obtain k' v' where p: "p = (k', v')" by (cases p)
  show ?case
  proof (cases "k' = k")
    case True
    with Cons.prems p show ?thesis by auto
  next
    case False
    have "v' \<notin> snd ` set (AList.update k v al)"
      using Cons.prems p set_update_subset [of k v al] by (auto simp: rev_image_eqI)
    with Cons False p show ?thesis by auto
  qed
qed

lemma distinct_snd_delete:
  "distinct (map snd al) \<Longrightarrow> distinct (map snd (AList.delete k al))"
  by (simp add: AList.delete_eq distinct_map_filter)

lemma set_delete_subset: "set (AList.delete k al) \<subseteq> set al"
  by (simp add: AList.delete_eq)

lemma registry_inv_pushes_only: "pushes_only s s' \<Longrightarrow> registry_inv s \<Longrightarrow> registry_inv s'"
  by (simp add: pushes_only_def registry_inv_def)

lemma registry_inv_register:
  assumes "registry_inv s"
  shows "registry_inv (s\<lparr>wsCount := Suc (wsCount s), clients := AList.update v (wsCount s) (clients s),
                       onClose := (wsCount s, v) # onClose s\<rparr>)"
proof -
  from assms have d1: "distinct (map fst (clients s))" and d2: "distinct (map snd (clients s))"
    and lt: "list_all (\<lambda>p. snd p < wsCount s) (clients s)"
    by (simp_all add: registry_inv_def)
  have fresh: "wsCount s \<notin> snd ` set (clients s)"
    using lt by (auto simp: list_all_iff)
  have "list_all (\<lambda>p. snd p < Suc (wsCount s)) (AList.update v (wsCount s) (clients s))"
    using lt set_update_subset [of v "wsCount s" "clients s"]
    by (fastforce simp: list_all_iff)
  then show ?thesis
    using d1 d2 fresh by (simp add: registry_inv_def distinct_update distinct_snd_update)
qed

lemma registry_inv_close: "registry_inv s \<Longrightarrow> registry_inv (close w s)"
  using set_delete_subset
  by (fastforce simp: registry_inv_def close_def distinct_delete distinct_snd_delete list_all_iff
      split: option.splits)

lemma pushes_only_accounts: "pushes_only s (s\<lparr>db := d\<rparr>)"
  by (simp add: pushes_only_def)

lemma registry_inv_step: "registry_inv s \<Longrightarrow> registry_inv (step s e)"
proof (cases e)
  case (Upgrade h)
  assume inv: "registry_inv s"
  show ?thesis
  proof (cases h s rule: upgrade_cases)
    case same
    with inv Upgrade show ?thesis by simp
  next
    case (connected pairs v)
    with inv Upgrade show ?thesis
      using registry_inv_pushes_only [OF connected(4) registry_inv_register [OF inv]] by simp
  qed
next
  case (Close w)
  assume "registry_inv s"
  with Close show ?thesis by (simp add: registry_inv_close)
next
  case (PostTimers c d)
  assume "registry_inv s"
  with PostTimers show ?thesis
    using registry_inv_pushes_only [OF pushes_only_postTimers] by simp
next
  case (PostStop c p)
  assume "registry_inv s"
  with PostStop show ?thesis
    using registry_inv_pushes_only [OF pushes_only_postStop] by simp
next
  case Tick
  assume "registry_inv s"
  with Tick show ?thesis
    using registry_inv_pushes_only [OF pushes_only_tick] by simp
next
  case (Accounts us ses)
  assume "registry_inv s"
  with Accounts show ?thesis
    using registry_inv_pushes_only [OF pushes_only_accounts] by simp
qed

lemma run_snoc: "run (es @ [e]) s = step (run es s) e"
  by (simp add: run_def)

lemma run_Cons: "run (e # es) s = run es (step s e)"
  by (simp add: run_def)

lemma registry_inv_run: "registry_inv s \<Longrightarrow> registry_inv (run es s)"
  by (induction es arbitrary: s) (simp_all add: run_Cons registry_inv_step, simp add: run_def)

lemma registry_inv_started: "started s \<Longrightarrow> registry_inv s"
  by (simp add: started_def registry_inv_def)

subsection \<open>A WebSocket outside the registry receives nothing\<close>

lemma pushes_only_silent:
  assumes "pushes_only s s'" and "w \<notin> snd ` set (clients s)"
  shows "filter (\<lambda>m. fst m = w) (delivered s') = filter (\<lambda>m. fst m = w) (delivered s)"
proof -
  from assms(1) obtain ms where
    ms: "delivered s' = delivered s @ ms" "fst ` set ms \<subseteq> snd ` set (clients s)"
    by (auto simp: pushes_only_def)
  have "filter (\<lambda>m. fst m = w) ms = []"
    using ms(2) assms(2) by (auto simp: filter_empty_conv)
  with ms(1) show ?thesis by simp
qed

lemma silent_pushes_only:
  "pushes_only s s' \<Longrightarrow> w \<notin> snd ` set (clients s) \<Longrightarrow> w < wsCount s \<Longrightarrow> silent w s s'"
  unfolding silent_def using pushes_only_silent [of s s' w]
  by (simp add: pushes_only_def)

lemma silent_step:
  assumes out: "w \<notin> snd ` set (clients s)" and old: "w < wsCount s"
  shows "silent w s (step s e)"
proof (cases e)
  case (Upgrade h)
  show ?thesis
  proof (cases h s rule: upgrade_cases)
    case same
    with Upgrade out old show ?thesis by (simp add: silent_def)
  next
    case (connected pairs v)
    let ?s1 = "s\<lparr>wsCount := Suc (wsCount s), clients := AList.update v (wsCount s) (clients s),
                  onClose := (wsCount s, v) # onClose s\<rparr>"
    have "w \<notin> snd ` set (clients ?s1)"
      using out old set_update_subset [of v "wsCount s" "clients s"] by auto
    moreover have "w < wsCount ?s1" using old by simp
    ultimately have "silent w ?s1 (snd (upgrade h s))"
      using connected(4) by (rule silent_pushes_only [rotated])
    with Upgrade show ?thesis by (simp add: silent_def)
  qed
next
  case (Close w')
  with out old show ?thesis
    using set_delete_subset by (fastforce simp: silent_def close_def split: option.splits)
next
  case (PostTimers c d)
  with out old show ?thesis
    using silent_pushes_only [OF pushes_only_postTimers] by simp
next
  case (PostStop c p)
  with out old show ?thesis
    using silent_pushes_only [OF pushes_only_postStop] by simp
next
  case Tick
  with out old show ?thesis
    using silent_pushes_only [OF pushes_only_tick] by simp
next
  case (Accounts us ses)
  with out old show ?thesis
    using silent_pushes_only [OF pushes_only_accounts] by simp
qed

lemma silent_run:
  "w \<notin> snd ` set (clients s) \<Longrightarrow> w < wsCount s \<Longrightarrow> silent w s (run es s)"
proof (induction es arbitrary: s)
  case Nil
  then show ?case by (simp add: run_def silent_def)
next
  case (Cons e es)
  have 1: "silent w s (step s e)"
    using Cons.prems by (rule silent_step)
  then have "silent w (step s e) (run es (step s e))"
    using Cons.IH [of "step s e"] by (simp add: silent_def)
  with 1 show ?case by (simp add: run_Cons silent_def)
qed

text \<open>Registering over an existing entry: the old WebSocket leaves the registry.\<close>

lemma replaced_step:
  assumes inv: "registry_inv s" and v: "map_of pairs ''userId'' = Some v" "v \<noteq> []"
    and old: "map_of (clients s) v = Some old"
  shows "silent old s (step s (Upgrade (Some pairs)))"
proof -
  let ?s1 = "s\<lparr>wsCount := Suc (wsCount s), clients := AList.update v (wsCount s) (clients s),
                onClose := (wsCount s, v) # onClose s\<rparr>"
  from inv have d1: "distinct (map fst (clients s))" and d2: "distinct (map snd (clients s))"
    and lt: "list_all (\<lambda>p. snd p < wsCount s) (clients s)"
    by (simp_all add: registry_inv_def)
  have mem: "(v, old) \<in> set (clients s)"
    using old by (rule map_of_SomeD)
  then have lt_old: "old < wsCount s"
    using lt by (auto simp: list_all_iff)
  have "old \<notin> snd ` set (AList.update v (wsCount s) (clients s))"
  proof
    assume "old \<in> snd ` set (AList.update v (wsCount s) (clients s))"
    then obtain k where k: "(k, old) \<in> set (AList.update v (wsCount s) (clients s))"
      by auto
    then have "(k, old) \<in> set (clients s)" "k \<noteq> v"
      using lt_old by (auto simp: set_update_distinct [OF d1])
    with mem d2 show False
      by (metis distinct_map inj_onD snd_conv prod.inject)
  qed
  then have out: "old \<notin> snd ` set (clients ?s1)" by simp
  have p: "pushes_only ?s1 (snd (upgrade (Some pairs) s))"
    using connection_pushes_only [where s = "s\<lparr>wsCount := Suc (wsCount s)\<rparr>" and v = v and w = "wsCount s"]
    by (simp add: upgrade_userId [OF v])
  have "silent old ?s1 (snd (upgrade (Some pairs) s))"
    using p out lt_old by (intro silent_pushes_only) simp_all
  then show ?thesis by (simp add: silent_def)
qed

lemma registered_step:
  assumes v: "map_of pairs ''userId'' = Some v" "v \<noteq> []"
  shows "map_of (clients (step s (Upgrade (Some pairs)))) v = Some (wsCount s)"
proof -
  let ?s1 = "s\<lparr>wsCount := Suc (wsCount s), clients := AList.update v (wsCount s) (clients s),
                onClose := (wsCount s, v) # onClose s\<rparr>"
  have p: "pushes_only ?s1 (snd (upgrade (Some pairs) s))"
    using connection_pushes_only [where s = "s\<lparr>wsCount := Suc (wsCount s)\<rparr>" and v = v and w = "wsCount s"]
    by (simp add: upgrade_userId [OF v])
  then have "clients (snd (upgrade (Some pairs) s)) = AList.update v (wsCount s) (clients s)"
    by (simp add: pushes_only_def)
  then show ?thesis by (simp add: update_conv')
qed

text \<open>
  Claim C3. In every state the server reaches, the registry has at most one entry for a
  userId. Registering a WebSocket for a userId (an upgrade with that userId cookie) makes
  \<^verbatim>\<open>clients.get(userId)\<close> the new WebSocket; the WebSocket registered before receives
  nothing from then on, whatever events follow.
\<close>

theorem registry_one_channel:
  assumes "started s0"
  shows "let s = run es s0; s' = step s (Upgrade (Some pairs)) in
         distinct (map fst (clients s)) \<and>
         (map_of pairs ''userId'' = Some v \<and> v \<noteq> [] \<longrightarrow>
            map_of (clients s') v = Some (wsCount s) \<and>
            (\<forall>old. map_of (clients s) v = Some old \<longrightarrow>
               old \<noteq> wsCount s \<and>
               filter (\<lambda>m. fst m = old) (delivered (run es' s')) =
                 filter (\<lambda>m. fst m = old) (delivered s)))"
proof -
  let ?s = "run es s0"
  let ?s' = "step ?s (Upgrade (Some pairs))"
  have inv: "registry_inv ?s"
    using assms by (intro registry_inv_run registry_inv_started)
  then have d: "distinct (map fst (clients ?s))"
    by (simp add: registry_inv_def)
  {
    assume v: "map_of pairs ''userId'' = Some v" "v \<noteq> []"
    have r: "map_of (clients ?s') v = Some (wsCount ?s)"
      using v by (rule registered_step)
    {
      fix old assume old: "map_of (clients ?s) v = Some old"
      have 1: "silent old ?s ?s'"
        using inv v old by (rule replaced_step)
      then have 2: "silent old ?s' (run es' ?s')"
        by (intro silent_run) (simp_all add: silent_def)
      have "old \<noteq> wsCount ?s"
        using inv map_of_SomeD [OF old] by (auto simp: registry_inv_def list_all_iff)
      moreover have "filter (\<lambda>m. fst m = old) (delivered (run es' ?s')) =
                 filter (\<lambda>m. fst m = old) (delivered ?s)"
        using 1 2 by (simp add: silent_def)
      ultimately have "old \<noteq> wsCount ?s \<and>
               filter (\<lambda>m. fst m = old) (delivered (run es' ?s')) =
                 filter (\<lambda>m. fst m = old) (delivered ?s)" by simp
    }
    with r have "map_of (clients ?s') v = Some (wsCount ?s) \<and>
            (\<forall>old. map_of (clients ?s) v = Some old \<longrightarrow>
               old \<noteq> wsCount ?s \<and>
               filter (\<lambda>m. fst m = old) (delivered (run es' ?s')) =
                 filter (\<lambda>m. fst m = old) (delivered ?s))" by blast
  }
  with d show ?thesis by (simp add: Let_def)
qed

theorem registry_one_channel_witness:
  "started server0 \<and>
   map_of (clients (run [Upgrade (Some [(''userId'', toString alice)])] server0)) (toString alice) = Some 0 \<and>
   distinct (map fst (clients (run [Upgrade (Some [(''userId'', toString alice)])] server0))) \<and>
   map_of (clients (step (run [Upgrade (Some [(''userId'', toString alice)])] server0)
       (Upgrade (Some [(''userId'', toString alice)])))) (toString alice) = Some 1 \<and>
   filter (\<lambda>m. fst m = 0)
     (delivered (run [PostTimers (Some ''SA'') (Some ''write spec''), Tick]
        (step (run [Upgrade (Some [(''userId'', toString alice)])] server0)
           (Upgrade (Some [(''userId'', toString alice)]))))) =
   filter (\<lambda>m. fst m = 0)
     (delivered (run [Upgrade (Some [(''userId'', toString alice)])] server0))"
proof -
  have h1: "started server0"
    by (simp add: started_def server0_def)
  have h2: "map_of [(''userId'', toString alice)] ''userId'' = Some (toString alice)"
    by simp
  have h3: "toString alice \<noteq> []"
    by (simp add: alice_def)
  have h4: "map_of (clients (run [Upgrade (Some [(''userId'', toString alice)])] server0))
              (toString alice) = Some 0"
    by code_simp
  have h5: "wsCount (run [Upgrade (Some [(''userId'', toString alice)])] server0) = 1"
    by code_simp
  show ?thesis
    using registry_one_channel [OF h1, of "[Upgrade (Some [(''userId'', toString alice)])]"
        "[(''userId'', toString alice)]" "toString alice"
        "[PostTimers (Some ''SA'') (Some ''write spec''), Tick]"]
      h1 h2 h3 h4 h5
    by (simp add: Let_def)
qed

subsection \<open>The close handler\<close>

lemma close_deletes:
  "map_of (onClose s) w = Some v \<Longrightarrow> map_of (clients (close w s)) v = None"
  by (simp add: close_def delete_conv')

lemma onClose_step:
  assumes v: "map_of pairs ''userId'' = Some v" "v \<noteq> []"
  shows "onClose (step s (Upgrade (Some pairs))) = (wsCount s, v) # onClose s \<and>
         wsCount (step s (Upgrade (Some pairs))) = Suc (wsCount s)"
proof -
  let ?s1 = "s\<lparr>wsCount := Suc (wsCount s), clients := AList.update v (wsCount s) (clients s),
                onClose := (wsCount s, v) # onClose s\<rparr>"
  have p: "pushes_only ?s1 (snd (upgrade (Some pairs) s))"
    using connection_pushes_only [where s = "s\<lparr>wsCount := Suc (wsCount s)\<rparr>" and v = v and w = "wsCount s"]
    by (simp add: upgrade_userId [OF v])
  then show ?thesis by (simp add: pushes_only_def)
qed

text \<open>
  Claim C10. The close handler deletes the entry of its userId whatever WebSocket is stored
  there: when a second WebSocket has been registered for the same userId and the first one
  then closes, the entry of the second is deleted and the user has no registered channel.
\<close>

theorem close_removes_newer_registration:
  assumes "map_of pairs ''userId'' = Some v" and "v \<noteq> []"
  shows "let s1 = step s (Upgrade (Some pairs)); s2 = step s1 (Upgrade (Some pairs));
             s3 = step s2 (Close (wsCount s))
         in map_of (clients s1) v = Some (wsCount s) \<and>
            map_of (clients s2) v = Some (Suc (wsCount s)) \<and>
            map_of (clients s3) v = None"
proof -
  let ?s1 = "step s (Upgrade (Some pairs))"
  let ?s2 = "step ?s1 (Upgrade (Some pairs))"
  have 1: "map_of (clients ?s1) v = Some (wsCount s)"
    using assms by (rule registered_step)
  have c1: "onClose ?s1 = (wsCount s, v) # onClose s" "wsCount ?s1 = Suc (wsCount s)"
    using onClose_step [OF assms, of s] by simp_all
  have 2: "map_of (clients ?s2) v = Some (Suc (wsCount s))"
    using registered_step [OF assms, of ?s1] c1 by simp
  have "onClose ?s2 = (Suc (wsCount s), v) # (wsCount s, v) # onClose s"
    using onClose_step [OF assms, of ?s1] c1 by simp
  then have "map_of (onClose ?s2) (wsCount s) = Some v"
    by simp
  then have "map_of (clients (close (wsCount s) ?s2)) v = None"
    by (rule close_deletes)
  with 1 2 show ?thesis by (simp add: Let_def)
qed

theorem close_removes_newer_registration_witness:
  "map_of (clients (step server0 (Upgrade (Some [(''userId'', toString alice)])))) (toString alice) = Some 0 \<and>
   map_of (clients (step (step server0 (Upgrade (Some [(''userId'', toString alice)])))
      (Upgrade (Some [(''userId'', toString alice)])))) (toString alice) = Some 1 \<and>
   map_of (clients (step (step (step server0 (Upgrade (Some [(''userId'', toString alice)])))
      (Upgrade (Some [(''userId'', toString alice)]))) (Close 0))) (toString alice) = None"
proof -
  have h1: "map_of [(''userId'', toString alice)] ''userId'' = Some (toString alice)"
    by simp
  have h2: "toString alice \<noteq> []"
    by (simp add: alice_def)
  have h3: "wsCount server0 = 0"
    by (simp add: server0_def)
  show ?thesis
    using close_removes_newer_registration [OF h1 h2, of server0] h3
    by (simp add: Let_def)
qed

subsection \<open>The channel gate\<close>

text \<open>
  Claim C6 asks for a 401 and a closed transport for every upgrade request without the userId
  cookie. For a request with a \<^verbatim>\<open>Cookie\<close> header that lacks the cookie (or carries an empty
  one) the handler does that and leaves the state alone (\<open>upgrade_no_userId\<close>). For a request
  with no \<^verbatim>\<open>Cookie\<close> header at all, \<^verbatim>\<open>cookie.parse(undefined)\<close> throws before the guard
  \<^verbatim>\<open>cookies && cookies["userId"]\<close> is reached: nothing is written to the socket and it is
  not destroyed.
\<close>

theorem upgrade_without_cookie_header:
  "upgrade None s = (Inl TypeError, s)"
  by (simp add: upgrade_def cookie_parse_def)

subsection \<open>Evaluating the examples\<close>

lemma toString_alice: "toString alice = ''616161616161616161616161''"
  by code_simp

lemma toString_bob: "toString bob = ''626262626262626262626262''"
  by code_simp

lemma ObjectId_alice: "ObjectId ''616161616161616161616161'' = Inr alice"
  by code_simp

lemma ObjectId_bob: "ObjectId ''626262626262626262626262'' = Inr bob"
  by code_simp

lemma ObjectId_timer0: "ObjectId ''747474747474747474747430'' = Inr (Oid ''ttttttttttt0'')"
  by code_simp

lemma ObjectId_abc: "ObjectId ''abc'' = Inl BSONTypeError"
  by code_simp

lemma char_of_digits: "char_of (48 :: nat) = CHR ''0''" "char_of (49 :: nat) = CHR ''1''"
  by code_simp+

lemma alice_neq_bob: "alice \<noteq> bob" "bob \<noteq> alice"
  by (simp_all add: alice_def bob_def)

lemmas handler_defs = run_def upgrade_def cookie_parse_def connection_def sendAllTimersMsg_def
  sendActiveTimersMsg_def fetchAllTimers_def fetchActiveTimers_def TimerViewModel_def newDate_def
  postTimers_def postStop_def auth_def findUserBySessionId_def createTimer_def stopTimer_def
  tick_def close_def Let_def

lemmas example_evals = toString_alice toString_bob ObjectId_alice ObjectId_bob ObjectId_timer0
  ObjectId_abc char_of_digits alice_neq_bob

lemma server1_state: "server1 =
  \<lparr>db = \<lparr>users = [\<lparr>user_id = alice, username = ''alice'', password = ''pa''\<rparr>,
                      \<lparr>user_id = bob, username = ''bob'', password = ''pb''\<rparr>],
             sessions = [\<lparr>session_userId = alice, sessionId = ''SA''\<rparr>,
                         \<lparr>session_userId = bob, sessionId = ''SB''\<rparr>],
             timers = [timer0]\<rparr>,
      clients = [(''616161616161616161616161'', 0)],
      delivered = [(0, \<lparr>msg_type = all_timers, msg_timers = []\<rparr>),
                   (0, \<lparr>msg_type = all_timers, msg_timers = [spec_project timer0 1000]\<rparr>)],
      onClose = [(0, ''616161616161616161616161'')], wsCount = 1,
      clock = (\<lambda>n. 1000 * int n), clockReads = 2,
      idgen = (\<lambda>n. Oid (''ttttttttttt'' @ [char_of (48 + n)])), idsMade = 1\<rparr>"
  by (simp add: server1_def server0_def handler_defs example_evals timer0_def spec_project_def)

subsection \<open>Stopping a timer\<close>











subsection \<open>A push without a registered channel\<close>

lemma server2_state: "server2 = server1\<lparr>clients := []\<rparr>"
  by (simp add: server2_def server1_state close_def)

lemma createTimer_timers:
  "timers (db (snd (createTimer u d s))) =
     timers (db s) @ [\<lparr>timer_id = idgen s (idsMade s), timer_description = d,
                       timer_start = clock s (clockReads s), timer_userId = u, timer_end = None\<rparr>]"
  by (simp add: createTimer_def newDate_def Let_def)

lemma postTimers_unregistered:
  assumes "auth cookie (db s) = Some u" and "oid_wf (user_id u)"
    and "map_of (clients s) (toString (user_id u)) = None"
  shows "postTimers cookie d s =
           (Inl TypeError,
            snd (fetchAllTimers (user_id u) (snd (createTimer (user_id u) d s))))"
proof -
  have "map_of (clients (snd (createTimer (user_id u) d s))) (toString (user_id u)) = None"
    using assms(3) by (simp add: createTimer_frame)
  then have "sendAllTimersMsg (toString (user_id u)) (snd (createTimer (user_id u) d s)) =
         (Inl TypeError, snd (fetchAllTimers (user_id u) (snd (createTimer (user_id u) d s))))"
    using ObjectId_toString [OF assms(2)] by (intro sendAllTimersMsg_unregistered)
  with assms(1) show ?thesis
    by (simp add: postTimers_def split_beta)
qed

lemma postStop_unregistered:
  assumes "auth cookie (db s) = Some u" and "oid_wf (user_id u)"
    and "map_of (clients s) (toString (user_id u)) = None"
    and "ObjectId p = Inr i" and "fst (stopTimer i (user_id u) s)"
  shows "postStop cookie p s =
           (Inl TypeError,
            snd (fetchAllTimers (user_id u) (snd (stopTimer i (user_id u) s))))"
proof -
  have "map_of (clients (snd (stopTimer i (user_id u) s))) (toString (user_id u)) = None"
    using assms(3) by (simp add: stopTimer_frame)
  then have "sendAllTimersMsg (toString (user_id u)) (snd (stopTimer i (user_id u) s)) =
         (Inl TypeError, snd (fetchAllTimers (user_id u) (snd (stopTimer i (user_id u) s))))"
    using ObjectId_toString [OF assms(2)] by (intro sendAllTimersMsg_unregistered)
  with assms(1,4,5) show ?thesis
    by (simp add: postStop_def split_beta)
qed

text \<open>
  Claim C1, as the specification states it, fails: \<^verbatim>\<open>clients.get(userId)\<close> is \<^verbatim>\<open>undefined\<close>
  for a user without a registry entry and \<^verbatim>\<open>.send\<close> on it throws. Alice has a session and no
  channel: both pushes raise a TypeError; her create request stores the timer and then
  raises instead of answering 201; her stop request sets \<^verbatim>\<open>end\<close> and then raises instead of
  answering 204.
\<close>

theorem push_without_channel_counterexample:
  "fst (sendAllTimersMsg (toString alice) server0) = Inl TypeError \<and>
   fst (sendActiveTimersMsg (toString alice) server0) = Inl TypeError \<and>
   fst (postTimers (Some ''SA'') (Some ''write spec'') server0) = Inl TypeError \<and>
   timers (db (snd (postTimers (Some ''SA'') (Some ''write spec'') server0))) = [timer0] \<and>
   fst (postStop (Some ''SA'') ''747474747474747474747430'' server2) = Inl TypeError \<and>
   map timer_end (timers (db (snd (postStop (Some ''SA'') ''747474747474747474747430'' server2)))) =
     [Some 2000]"
  by (simp add: server2_state server1_state server0_def handler_defs example_evals timer0_def)

text \<open>
  Claim C1, amended. For a userId (a string \<^verbatim>\<open>ObjectId\<close> accepts) with no registry entry,
  each push raises a TypeError and sends nothing. The create and stop handlers await the
  push before they answer: for an authenticated user without a registry entry the create
  handler stores the new timer, the stop handler stops the timer it found, and both then
  fail with that TypeError instead of answering 201 or 204.
\<close>

theorem push_without_channel_raises:
  assumes "map_of (clients s) userId = None" and "ObjectId userId = Inr uid"
  shows "fst (sendAllTimersMsg userId s) = Inl TypeError \<and>
         delivered (snd (sendAllTimersMsg userId s)) = delivered s \<and>
         fst (sendActiveTimersMsg userId s) = Inl TypeError \<and>
         delivered (snd (sendActiveTimersMsg userId s)) = delivered s \<and>
         (auth cookie (db s) = Some u \<and> oid_wf (user_id u) \<and> toString (user_id u) = userId \<longrightarrow>
            fst (postTimers cookie d s) = Inl TypeError \<and>
            delivered (snd (postTimers cookie d s)) = delivered s \<and>
            timers (db (snd (postTimers cookie d s))) =
              timers (db s) @ [\<lparr>timer_id = idgen s (idsMade s), timer_description = d,
                                timer_start = clock s (clockReads s), timer_userId = user_id u,
                                timer_end = None\<rparr>] \<and>
            (ObjectId p = Inr i \<and> fst (stopTimer i (user_id u) s) \<longrightarrow>
               fst (postStop cookie p s) = Inl TypeError \<and>
               delivered (snd (postStop cookie p s)) = delivered s \<and>
               timers (db (snd (postStop cookie p s))) =
                 timers (db (snd (stopTimer i (user_id u) s)))))"
proof -
  have push: "fst (sendAllTimersMsg userId s) = Inl TypeError \<and>
         delivered (snd (sendAllTimersMsg userId s)) = delivered s \<and>
         fst (sendActiveTimersMsg userId s) = Inl TypeError \<and>
         delivered (snd (sendActiveTimersMsg userId s)) = delivered s"
    using assms
    by (simp add: sendAllTimersMsg_unregistered sendActiveTimersMsg_unregistered fetch_frame)
  {
    assume u: "auth cookie (db s) = Some u" "oid_wf (user_id u)" "toString (user_id u) = userId"
    have un: "map_of (clients s) (toString (user_id u)) = None"
      using assms(1) u(3) by simp
    have create: "fst (postTimers cookie d s) = Inl TypeError \<and>
            delivered (snd (postTimers cookie d s)) = delivered s \<and>
            timers (db (snd (postTimers cookie d s))) =
              timers (db s) @ [\<lparr>timer_id = idgen s (idsMade s), timer_description = d,
                                timer_start = clock s (clockReads s), timer_userId = user_id u,
                                timer_end = None\<rparr>]"
      by (simp add: postTimers_unregistered [OF u(1,2) un] fetch_frame createTimer_frame
          createTimer_timers)
    {
      assume i: "ObjectId p = Inr i" "fst (stopTimer i (user_id u) s)"
      have "fst (postStop cookie p s) = Inl TypeError \<and>
               delivered (snd (postStop cookie p s)) = delivered s \<and>
               timers (db (snd (postStop cookie p s))) =
                 timers (db (snd (stopTimer i (user_id u) s)))"
        by (simp add: postStop_unregistered [OF u(1,2) un i] fetch_frame stopTimer_frame)
    }
    with create have "fst (postTimers cookie d s) = Inl TypeError \<and>
            delivered (snd (postTimers cookie d s)) = delivered s \<and>
            timers (db (snd (postTimers cookie d s))) =
              timers (db s) @ [\<lparr>timer_id = idgen s (idsMade s), timer_description = d,
                                timer_start = clock s (clockReads s), timer_userId = user_id u,
                                timer_end = None\<rparr>] \<and>
            (ObjectId p = Inr i \<and> fst (stopTimer i (user_id u) s) \<longrightarrow>
               fst (postStop cookie p s) = Inl TypeError \<and>
               delivered (snd (postStop cookie p s)) = delivered s \<and>
               timers (db (snd (postStop cookie p s))) =
                 timers (db (snd (stopTimer i (user_id u) s))))"
      by blast
  }
  with push show ?thesis by blast
qed

theorem push_without_channel_raises_witness:
  "map_of (clients server2) (toString alice) = None \<and>
   fst (sendAllTimersMsg (toString alice) server2) = Inl TypeError \<and>
   fst (sendActiveTimersMsg (toString alice) server2) = Inl TypeError \<and>
   fst (postTimers (Some ''SA'') (Some ''review'') server2) = Inl TypeError \<and>
   map timer_description (timers (db (snd (postTimers (Some ''SA'') (Some ''review'') server2)))) =
     [Some ''write spec'', Some ''review''] \<and>
   fst (postStop (Some ''SA'') ''747474747474747474747430'' server2) = Inl TypeError \<and>
   delivered (snd (postStop (Some ''SA'') ''747474747474747474747430'' server2)) = delivered server2"
proof -
  have h1: "map_of (clients server2) (toString alice) = None"
    by (simp add: server2_state)
  have h2: "ObjectId (toString alice) = Inr alice"
    by (simp add: example_evals)
  have h3: "auth (Some ''SA'') (db server2) =
              Some \<lparr>user_id = alice, username = ''alice'', password = ''pa''\<rparr>"
    by (simp add: server2_state server1_state handler_defs)
  have h4: "oid_wf alice"
    by (simp add: alice_def)
  have h5: "fst (stopTimer (Oid ''ttttttttttt0'') alice server2)"
    by (simp add: server2_state server1_state handler_defs timer0_def)
  have h6: "map timer_description (timers (db server2)) = [Some ''write spec'']"
    by (simp add: server2_state server1_state timer0_def)
  show ?thesis
    using push_without_channel_raises [OF h1 h2, of "Some ''SA''"
        "\<lparr>user_id = alice, username = ''alice'', password = ''pa''\<rparr>" "Some ''review''"
        "''747474747474747474747430''" "Oid ''ttttttttttt0''"]
      h1 h3 h4 h5 h6 ObjectId_timer0
    by simp
qed

subsection \<open>The tick\<close>

lemma timer_of_fetchActive:
  "map timer_of (fst (fetchActiveTimers uid s)) =
     filter (\<lambda>t. timer_userId t = uid \<and> timer_end t = None) (timers (db s))"
  by (simp add: fetchActiveTimers_def timer_of_viewModels)

lemma timer_of_fetchAll:
  "map timer_of (fst (fetchAllTimers uid s)) =
     filter (\<lambda>t. timer_userId t = uid) (timers (db s))"
  by (simp add: fetchAllTimers_def timer_of_viewModels)

lemma sendActiveTimersMsg_delivers:
  assumes "ObjectId userId = Inr uid" and "map_of (clients s) userId = Some w"
  shows "fst (sendActiveTimersMsg userId s) = Inr () \<and>
         (\<exists>m. delivered (snd (sendActiveTimersMsg userId s)) = delivered s @ [(w, m)] \<and>
              active_push s userId (w, m))"
  using assms
  by (simp add: sendActiveTimersMsg_registered active_push_def timer_of_fetchActive)

lemma sendAllTimersMsg_delivers:
  assumes "ObjectId userId = Inr uid" and "map_of (clients s) userId = Some w"
  shows "fst (sendAllTimersMsg userId s) = Inr () \<and>
         (\<exists>m. delivered (snd (sendAllTimersMsg userId s)) = delivered s @ [(w, m)] \<and>
              all_push s userId (w, m))"
  using assms
  by (simp add: sendAllTimersMsg_registered all_push_def timer_of_fetchAll)


lemma sendAllTimersMsg_db: "db (snd (sendAllTimersMsg userId s)) = db s"
  by (cases "ObjectId userId"; cases "map_of (clients s) userId")
    (simp_all add: sendAllTimersMsg_invalid sendAllTimersMsg_unregistered
      sendAllTimersMsg_registered fetch_frame)


lemma isl_ObjectId: "isl (ObjectId k) = (\<exists>e. ObjectId k = Inl e)"
  by (cases "ObjectId k") simp_all


lemma tickLoop_append:
  "fst (tickLoop ks s) = Inr () \<Longrightarrow> tickLoop (ks @ rest) s = tickLoop rest (snd (tickLoop ks s))"
proof (induction ks arbitrary: s)
  case Nil
  then show ?case by simp
next
  case (Cons k ks)
  obtain r s1 where r: "sendActiveTimersMsg k s = (r, s1)"
    by (cases "sendActiveTimersMsg k s")
  show ?case
  proof (cases r)
    case (Inl e)
    with r Cons.prems show ?thesis by simp
  next
    case (Inr u)
    with r Cons.prems have "fst (tickLoop ks s1) = Inr ()" by simp
    from Cons.IH [OF this] r Inr show ?thesis by simp
  qed
qed


subsection \<open>The tick among other events\<close>

lemma server5_state: "server5 =
  \<lparr>db = \<lparr>users = [\<lparr>user_id = alice, username = ''alice'', password = ''pa''\<rparr>,
                      \<lparr>user_id = bob, username = ''bob'', password = ''pb''\<rparr>],
             sessions = [\<lparr>session_userId = alice, sessionId = ''SA''\<rparr>,
                         \<lparr>session_userId = bob, sessionId = ''SB''\<rparr>],
             timers = [timer0]\<rparr>,
      clients = [(''626262626262626262626262'', 0), (''616161616161616161616161'', 1)],
      delivered = [(0, \<lparr>msg_type = all_timers, msg_timers = []\<rparr>),
                   (1, \<lparr>msg_type = all_timers, msg_timers = []\<rparr>),
                   (1, \<lparr>msg_type = all_timers, msg_timers = [spec_project timer0 1000]\<rparr>)],
      onClose = [(1, ''616161616161616161616161''), (0, ''626262626262626262626262'')],
      wsCount = 2,
      clock = (\<lambda>n. 1000 * int n), clockReads = 2,
      idgen = (\<lambda>n. Oid (''ttttttttttt'' @ [char_of (48 + n)])), idsMade = 1\<rparr>"
  by (simp add: server5_def server0_def handler_defs example_evals timer0_def spec_project_def)

lemma server5_survives:
  "survives [Upgrade (Some [(''userId'', toString bob)]),
             Upgrade (Some [(''userId'', toString alice)]),
             PostTimers (Some ''SA'') (Some ''write spec'')] server0"
  by (simp add: server0_def handler_defs example_evals)

lemmas tick_defs = tickWith_def sendActiveTimersMsg_in_def cursor_def fatal_def

subsection \<open>One push during a wait\<close>

lemma sendActiveTimersMsg_in_invalid:
  "ObjectId userId = Inl e \<Longrightarrow> sendActiveTimersMsg_in a userId c = (Inl e, c)"
  by (simp add: sendActiveTimersMsg_in_def)

lemma sendActiveTimersMsg_in_rejected:
  "ObjectId userId = Inr uid \<Longrightarrow> \<not> answered a \<Longrightarrow>
   sendActiveTimersMsg_in a userId c = (Inl MongoError, handle (later a) (handle (earlier a) c))"
  by (simp add: sendActiveTimersMsg_in_def split_beta)

lemma sendActiveTimersMsg_in_gone:
  assumes "ObjectId userId = Inr uid" and "answered a"
    and "map_of (clients (snd (handle (later a) (handle (earlier a) c)))) userId = None"
  shows "fst (sendActiveTimersMsg_in a userId c) = Inl TypeError \<and>
         fst (snd (sendActiveTimersMsg_in a userId c)) = fst (handle (later a) (handle (earlier a) c)) \<and>
         delivered (snd (snd (sendActiveTimersMsg_in a userId c))) =
           delivered (snd (handle (later a) (handle (earlier a) c))) \<and>
         clients (snd (snd (sendActiveTimersMsg_in a userId c))) =
           clients (snd (handle (later a) (handle (earlier a) c)))"
  using assms
  by (simp add: sendActiveTimersMsg_in_def split_beta Let_def viewModels_state)

lemma sendActiveTimersMsg_in_sent:
  assumes "ObjectId userId = Inr uid" and "answered a"
    and "map_of (clients (snd (handle (later a) (handle (earlier a) c)))) userId = Some w"
  shows "fst (sendActiveTimersMsg_in a userId c) = Inr () \<and>
         fst (snd (sendActiveTimersMsg_in a userId c)) = fst (handle (later a) (handle (earlier a) c)) \<and>
         clients (snd (snd (sendActiveTimersMsg_in a userId c))) =
           clients (snd (handle (later a) (handle (earlier a) c))) \<and>
         (\<exists>m. delivered (snd (snd (sendActiveTimersMsg_in a userId c))) =
                delivered (snd (handle (later a) (handle (earlier a) c))) @ [(w, m)] \<and>
              msg_type m = active_timers \<and>
              map timer_of (msg_timers m) =
                filter (\<lambda>t. timer_userId t = uid \<and> timer_end t = None)
                  (timers (db (snd (handle (earlier a) c)))))"
  using assms
  by (simp add: sendActiveTimersMsg_in_def split_beta Let_def viewModels_state timer_of_viewModels)


subsection \<open>The cycle\<close>

lemma tickWith_Nil: "tickWith [] s = tick s"
  by (simp add: tickWith_def tick_def)



subsection \<open>Runs without a raising handler\<close>







text \<open>
  Claim C8, as the specification states it, fails: the loop of the tick has no
  \<^verbatim>\<open>try\<close>/\<^verbatim>\<open>catch\<close>. Bob and Alice are registered, in this order, and no handler has raised.
  When the store rejects the query of the push for Bob (a persistence failure), or when
  Bob's entry is deleted while his push awaits the store, so that the send is a call on
  \<^verbatim>\<open>undefined\<close>, the cycle ends with that error: Alice, whose own push succeeds, receives
  nothing, and under the runtime's mode \<^verbatim>\<open>throw\<close> the unhandled rejection ends the process.
\<close>

theorem tick_failure_not_isolated_counterexample:
  "survives [Upgrade (Some [(''userId'', toString bob)]),
             Upgrade (Some [(''userId'', toString alice)]),
             PostTimers (Some ''SA'') (Some ''write spec'')] server0 \<and>
   map fst (clients server5) = [toString bob, toString alice] \<and>
   fst (tickWith [\<lparr>earlier = [], answered = False, later = []\<rparr>] server5) = Inl MongoError \<and>
   delivered (snd (tickWith [\<lparr>earlier = [], answered = False, later = []\<rparr>] server5)) =
     delivered server5 \<and>
   fatal Throw (fst (tickWith [\<lparr>earlier = [], answered = False, later = []\<rparr>] server5)) \<and>
   fst (tickWith [\<lparr>earlier = [], answered = True, later = [Close 0]\<rparr>] server5) = Inl TypeError \<and>
   delivered (snd (tickWith [\<lparr>earlier = [], answered = True, later = [Close 0]\<rparr>] server5)) =
     delivered server5 \<and>
   fatal Throw (fst (tickWith [\<lparr>earlier = [], answered = True, later = [Close 0]\<rparr>] server5)) \<and>
   fst (sendActiveTimersMsg (toString alice) server5) = Inr () \<and>
   delivered (snd (sendActiveTimersMsg (toString alice) server5)) =
     delivered server5 @ [(1, \<lparr>msg_type = active_timers, msg_timers = [spec_project timer0 2000]\<rparr>)]"
  by (rule conjI [OF server5_survives])
    (simp add: server5_state tick_defs handler_defs example_evals timer0_def spec_project_def)

text \<open>
  Claim C8, amended. When the push for the userId under the iterator fails, because
  \<^verbatim>\<open>ObjectId\<close> rejects the userId, the store rejects the query, or the entry of the userId is
  gone when the send is reached, the error is not caught: the cycle ends there with that
  error, whatever waits were still to come, and the failing push has sent nothing; only a
  push that returns normally lets the loop go on to the next userId. The rejection of the
  callback's promise is handled by nothing: it is fatal to the process under the runtime's
  mode \<^verbatim>\<open>throw\<close> (the default of Node 15 and later) and not under \<^verbatim>\<open>warn\<close>.
\<close>

theorem tick_push_failure_ends_cycle:
  assumes "i < length (clients s)"
  shows "let userId = fst (clients s ! i);
             c = handle (later a) (handle (earlier a) (Suc i, s))
         in (\<forall>e. ObjectId userId = Inl e \<longrightarrow> tickFrom (a # rest) i s = (Inl e, s)) \<and>
            (\<not> isl (ObjectId userId) \<and> \<not> answered a \<longrightarrow>
               tickFrom (a # rest) i s = (Inl MongoError, snd c)) \<and>
            (\<not> isl (ObjectId userId) \<and> answered a \<and> map_of (clients (snd c)) userId = None \<longrightarrow>
               fst (tickFrom (a # rest) i s) = Inl TypeError \<and>
               delivered (snd (tickFrom (a # rest) i s)) = delivered (snd c) \<and>
               clients (snd (tickFrom (a # rest) i s)) = clients (snd c)) \<and>
            (\<not> isl (ObjectId userId) \<and> answered a \<and> map_of (clients (snd c)) userId \<noteq> None \<longrightarrow>
               fst (sendActiveTimersMsg_in a userId (Suc i, s)) = Inr () \<and>
               tickFrom (a # rest) i s =
                 tickFrom rest (fst c) (snd (snd (sendActiveTimersMsg_in a userId (Suc i, s))))) \<and>
            (isl (fst (tickFrom (a # rest) i s)) \<longrightarrow>
               fatal Throw (fst (tickFrom (a # rest) i s)) \<and>
               \<not> fatal Warn (fst (tickFrom (a # rest) i s)))"
proof -
  let ?k = "fst (clients s ! i)"
  let ?c = "handle (later a) (handle (earlier a) (Suc i, s))"
  let ?p = "sendActiveTimersMsg_in a ?k (Suc i, s)"
  have unfold: "tickFrom (a # rest) i s =
      (case ?p of (Inl e, c) \<Rightarrow> (Inl e, snd c) | (Inr u, c) \<Rightarrow> tickFrom rest (fst c) (snd c))"
    using assms by simp
  have 1: "tickFrom (a # rest) i s = (Inl e, s)" if "ObjectId ?k = Inl e" for e
    using that by (simp add: unfold sendActiveTimersMsg_in_invalid del: tickFrom.simps)
  have 2: "tickFrom (a # rest) i s = (Inl MongoError, snd ?c)"
    if "\<not> isl (ObjectId ?k)" "\<not> answered a"
  proof -
    from that(1) obtain uid where "ObjectId ?k = Inr uid" by (cases "ObjectId ?k") simp_all
    from sendActiveTimersMsg_in_rejected [OF this that(2), of "(Suc i, s)"] show ?thesis
      by (simp add: unfold del: tickFrom.simps)
  qed
  have 3: "fst (tickFrom (a # rest) i s) = Inl TypeError \<and>
           delivered (snd (tickFrom (a # rest) i s)) = delivered (snd ?c) \<and>
           clients (snd (tickFrom (a # rest) i s)) = clients (snd ?c)"
    if "\<not> isl (ObjectId ?k)" "answered a" "map_of (clients (snd ?c)) ?k = None"
  proof -
    from that(1) obtain uid where "ObjectId ?k = Inr uid" by (cases "ObjectId ?k") simp_all
    from sendActiveTimersMsg_in_gone [OF this that(2,3)] show ?thesis
      by (cases ?p) (simp add: unfold del: tickFrom.simps)
  qed
  have 4: "fst ?p = Inr () \<and> tickFrom (a # rest) i s = tickFrom rest (fst ?c) (snd (snd ?p))"
    if "\<not> isl (ObjectId ?k)" "answered a" "map_of (clients (snd ?c)) ?k \<noteq> None"
  proof -
    from that(1) obtain uid where u: "ObjectId ?k = Inr uid" by (cases "ObjectId ?k") simp_all
    from that(3) obtain w where w: "map_of (clients (snd ?c)) ?k = Some w" by auto
    from sendActiveTimersMsg_in_sent [OF u that(2) w] show ?thesis
      by (cases ?p) (simp add: unfold del: tickFrom.simps)
  qed
  have 5: "fatal Throw (fst (tickFrom (a # rest) i s)) \<and> \<not> fatal Warn (fst (tickFrom (a # rest) i s))"
    if "isl (fst (tickFrom (a # rest) i s))"
    using that by (simp add: fatal_def)
  from 1 2 3 4 5 show ?thesis
    unfolding Let_def by blast
qed

theorem tick_push_failure_ends_cycle_witness:
  "fst (tickFrom [\<lparr>earlier = [], answered = False, later = []\<rparr>, quiet] 0 server5) = Inl MongoError \<and>
   delivered (snd (tickFrom [\<lparr>earlier = [], answered = False, later = []\<rparr>, quiet] 0 server5)) =
     delivered server5 \<and>
   fatal Throw (fst (tickFrom [\<lparr>earlier = [], answered = False, later = []\<rparr>, quiet] 0 server5)) \<and>
   fst (tickFrom [\<lparr>earlier = [Close 0], answered = True, later = []\<rparr>, quiet] 0 server5) =
     Inl TypeError \<and>
   delivered (snd (tickFrom [\<lparr>earlier = [Close 0], answered = True, later = []\<rparr>, quiet] 0 server5)) =
     delivered server5"
proof -
  have h1: "0 < length (clients server5)"
    by (simp add: server5_state)
  have h2: "fst (clients server5 ! 0) = toString bob"
    by (simp add: server5_state example_evals)
  have h3: "\<not> isl (ObjectId (toString bob))"
    by (simp add: example_evals)
  have h4: "handle [Close 0] (Suc 0, server5) = (0, server5\<lparr>clients := [(toString alice, 1)]\<rparr>)"
    by (simp add: server5_state cursor_def close_def example_evals)
  have h5: "map_of [(toString alice, 1 :: nat)] (toString bob) = None"
    by (simp add: example_evals)
  have a: "fst (tickFrom [\<lparr>earlier = [], answered = False, later = []\<rparr>, quiet] 0 server5) = Inl MongoError \<and>
   delivered (snd (tickFrom [\<lparr>earlier = [], answered = False, later = []\<rparr>, quiet] 0 server5)) =
     delivered server5 \<and>
   fatal Throw (fst (tickFrom [\<lparr>earlier = [], answered = False, later = []\<rparr>, quiet] 0 server5))"
    using tick_push_failure_ends_cycle [OF h1, where a = "\<lparr>earlier = [], answered = False, later = []\<rparr>"
        and rest = "[quiet]"] h2 h3
    by (simp add: Let_def fatal_def del: tickFrom.simps)
  have b: "fst (tickFrom [\<lparr>earlier = [Close 0], answered = True, later = []\<rparr>, quiet] 0 server5) =
     Inl TypeError \<and>
   delivered (snd (tickFrom [\<lparr>earlier = [Close 0], answered = True, later = []\<rparr>, quiet] 0 server5)) =
     delivered server5"
    using tick_push_failure_ends_cycle [OF h1, where a = "\<lparr>earlier = [Close 0], answered = True, later = []\<rparr>"
        and rest = "[quiet]"] h2 h3 h4 h5
    by (simp add: Let_def del: tickFrom.simps)
  from a b show ?thesis by blast
qed

subsection \<open>The identity of a channel\<close>

text \<open>The views depend on the state through the clock only.\<close>

lemma fst_TimerViewModel_cong:
  "clock s' = clock s \<Longrightarrow> clockReads s' = clockReads s \<Longrightarrow>
   fst (TimerViewModel t s') = fst (TimerViewModel t s)"
  by (cases "timer_end t") (simp_all add: TimerViewModel_def newDate_def)

lemma fst_viewModels_cong:
  "clock s' = clock s \<Longrightarrow> clockReads s' = clockReads s \<Longrightarrow>
   fst (viewModels ts s') = fst (viewModels ts s)"
proof (induction ts arbitrary: s s')
  case Nil
  then show ?case by simp
next
  case (Cons t ts)
  have "fst (viewModels ts (snd (TimerViewModel t s'))) = fst (viewModels ts (snd (TimerViewModel t s)))"
    using Cons.prems by (intro Cons.IH) (simp_all add: TimerViewModel_state)
  with Cons.prems show ?case
    by (simp add: split_beta fst_TimerViewModel_cong [of s' s t])
qed

text \<open>The accounts of the store: the collections \<^verbatim>\<open>users\<close> and \<^verbatim>\<open>sessions\<close> replaced.\<close>

lemma sendAllTimersMsg_accounts:
  "fst (sendAllTimersMsg v (s\<lparr>db := (db s)\<lparr>users := us, sessions := ses\<rparr>\<rparr>)) =
     fst (sendAllTimersMsg v s) \<and>
   clients (snd (sendAllTimersMsg v (s\<lparr>db := (db s)\<lparr>users := us, sessions := ses\<rparr>\<rparr>))) =
     clients (snd (sendAllTimersMsg v s)) \<and>
   delivered (snd (sendAllTimersMsg v (s\<lparr>db := (db s)\<lparr>users := us, sessions := ses\<rparr>\<rparr>))) =
     delivered (snd (sendAllTimersMsg v s))"
proof -
  let ?s' = "s\<lparr>db := (db s)\<lparr>users := us, sessions := ses\<rparr>\<rparr>"
  have v: "fst (fetchAllTimers uid ?s') = fst (fetchAllTimers uid s)" for uid
    using fst_viewModels_cong [of ?s' s] by (simp add: fetchAllTimers_def)
  show ?thesis
  proof (cases "ObjectId v")
    case (Inl e)
    then show ?thesis by (simp add: sendAllTimersMsg_invalid)
  next
    case (Inr uid)
    show ?thesis
    proof (cases "map_of (clients s) v")
      case None
      with Inr show ?thesis
        by (simp add: sendAllTimersMsg_unregistered fetch_frame)
    next
      case (Some w)
      with Inr show ?thesis
        by (simp add: sendAllTimersMsg_registered fetch_frame v)
    qed
  qed
qed

lemma upgrade_accounts:
  "fst (upgrade h (s\<lparr>db := (db s)\<lparr>users := us, sessions := ses\<rparr>\<rparr>)) = fst (upgrade h s) \<and>
   clients (snd (upgrade h (s\<lparr>db := (db s)\<lparr>users := us, sessions := ses\<rparr>\<rparr>))) =
     clients (snd (upgrade h s)) \<and>
   delivered (snd (upgrade h (s\<lparr>db := (db s)\<lparr>users := us, sessions := ses\<rparr>\<rparr>))) =
     delivered (snd (upgrade h s))"
proof (cases h)
  case None
  then show ?thesis by (simp add: upgrade_no_header)
next
  case (Some pairs)
  show ?thesis
  proof (cases "map_of pairs ''userId'' = None \<or> map_of pairs ''userId'' = Some []")
    case True
    with Some show ?thesis by (simp add: upgrade_no_userId)
  next
    case False
    then obtain v where v: "map_of pairs ''userId'' = Some v" "v \<noteq> []" by auto
    let ?s1 = "s\<lparr>wsCount := Suc (wsCount s), clients := AList.update v (wsCount s) (clients s),
                  onClose := (wsCount s, v) # onClose s\<rparr>"
    have eq: "s\<lparr>db := (db s)\<lparr>users := us, sessions := ses\<rparr>, wsCount := Suc (wsCount s),
            clients := AList.update v (wsCount s) (clients s),
            onClose := (wsCount s, v) # onClose s\<rparr> =
          s\<lparr>wsCount := Suc (wsCount s), clients := AList.update v (wsCount s) (clients s),
            onClose := (wsCount s, v) # onClose s,
            db := (db s)\<lparr>users := us, sessions := ses\<rparr>\<rparr>"
      by (rule server.equality) simp_all
    have "connection (wsCount s) v (s\<lparr>db := (db s)\<lparr>users := us, sessions := ses\<rparr>, wsCount := Suc (wsCount s)\<rparr>)
          = sendAllTimersMsg v (?s1\<lparr>db := (db ?s1)\<lparr>users := us, sessions := ses\<rparr>\<rparr>)"
      by (simp add: connection_def eq)
    moreover have "connection (wsCount s) v (s\<lparr>wsCount := Suc (wsCount s)\<rparr>) = sendAllTimersMsg v ?s1"
      by (simp add: connection_def)
    ultimately show ?thesis
      using sendAllTimersMsg_accounts [where v = v and s = ?s1 and us = us and ses = ses] Some
      by (simp add: upgrade_userId [OF v])
  qed
qed

lemma all_push_cong:
  "clients s' = clients s \<Longrightarrow> db s' = db s \<Longrightarrow> all_push s' = all_push s"
  by (auto simp: all_push_def fun_eq_iff split: sum.splits)

lemma upgrade_push:
  assumes v: "map_of pairs ''userId'' = Some v" "v \<noteq> []"
  shows "case ObjectId v of
           Inl e \<Rightarrow>
             fst (upgrade (Some pairs) s) = Inr (Connected (wsCount s) (Inl e)) \<and>
             delivered (snd (upgrade (Some pairs) s)) = delivered s
         | Inr uid \<Rightarrow>
             fst (upgrade (Some pairs) s) = Inr (Connected (wsCount s) (Inr ())) \<and>
             (\<exists>m. delivered (snd (upgrade (Some pairs) s)) = delivered s @ [(wsCount s, m)] \<and>
                  all_push (snd (upgrade (Some pairs) s)) v (wsCount s, m))"
proof -
  let ?s1 = "s\<lparr>wsCount := Suc (wsCount s), clients := AList.update v (wsCount s) (clients s),
                onClose := (wsCount s, v) # onClose s\<rparr>"
  have c: "connection (wsCount s) v (s\<lparr>wsCount := Suc (wsCount s)\<rparr>) = sendAllTimersMsg v ?s1"
    by (simp add: connection_def)
  have u: "upgrade (Some pairs) s =
             (Inr (Connected (wsCount s) (fst (sendAllTimersMsg v ?s1))), snd (sendAllTimersMsg v ?s1))"
    by (simp add: upgrade_userId [OF v] c)
  show ?thesis
  proof (cases "ObjectId v")
    case (Inl e)
    then show ?thesis
      by (simp add: u sendAllTimersMsg_invalid)
  next
    case (Inr uid)
    have w: "map_of (clients ?s1) v = Some (wsCount s)"
      by (simp add: update_conv')
    from sendAllTimersMsg_delivers [OF Inr w] obtain m where
      m: "fst (sendAllTimersMsg v ?s1) = Inr ()"
        "delivered (snd (sendAllTimersMsg v ?s1)) = delivered ?s1 @ [(wsCount s, m)]"
        "all_push ?s1 v (wsCount s, m)"
      by blast
    have "all_push (snd (sendAllTimersMsg v ?s1)) = all_push ?s1"
      using pushes_only_sendAll [of ?s1 v]
      by (intro all_push_cong) (simp_all add: pushes_only_def sendAllTimersMsg_db)
    with m Inr show ?thesis
      by (simp add: u)
  qed
qed

text \<open>
  Claim C9, as stated, fails in its second half: the upgrade does register a channel under
  every non-empty userId cookie, but under a key that \<^verbatim>\<open>ObjectId\<close> rejects no push is ever
  delivered. With the cookie \<^verbatim>\<open>abc\<close> the channel is registered, the push of the connection
  handler raises, and so does every later push addressed to \<^verbatim>\<open>abc\<close>.
\<close>

theorem client_asserted_channel_counterexample:
  "fst (upgrade (Some [(''userId'', ''abc'')]) server0) = Inr (Connected 0 (Inl BSONTypeError)) \<and>
   clients (snd (upgrade (Some [(''userId'', ''abc'')]) server0)) = [(''abc'', 0)] \<and>
   delivered (snd (upgrade (Some [(''userId'', ''abc'')]) server0)) = [] \<and>
   sendAllTimersMsg ''abc'' (snd (upgrade (Some [(''userId'', ''abc'')]) server0)) =
     (Inl BSONTypeError, snd (upgrade (Some [(''userId'', ''abc'')]) server0)) \<and>
   sendActiveTimersMsg ''abc'' (snd (upgrade (Some [(''userId'', ''abc'')]) server0)) =
     (Inl BSONTypeError, snd (upgrade (Some [(''userId'', ''abc'')]) server0))"
  by (simp add: server0_def handler_defs example_evals)

text \<open>
  Claim C9, amended. For every non-empty string \<open>v\<close> presented as the userId cookie the upgrade
  completes and registers the new WebSocket under the key \<open>v\<close>; its result, the registry and
  what is sent are the same whatever the collections \<^verbatim>\<open>users\<close> and \<^verbatim>\<open>sessions\<close> hold. When
  \<^verbatim>\<open>ObjectId\<close> accepts \<open>v\<close>, the connection handler sends the full snapshot of the user with
  that id to the new WebSocket, and in every state in which the registry still maps \<open>v\<close> to
  it, the full and the active snapshot of that user are delivered to it. When \<^verbatim>\<open>ObjectId\<close>
  rejects \<open>v\<close>, the connection handler and every push addressed to \<open>v\<close> raise and deliver
  nothing.
\<close>

theorem client_asserted_channel:
  assumes v: "map_of pairs ''userId'' = Some v" "v \<noteq> []"
  shows "map_of (clients (snd (upgrade (Some pairs) s))) v = Some (wsCount s) \<and>
         fst (upgrade (Some pairs) (s\<lparr>db := (db s)\<lparr>users := us, sessions := ses\<rparr>\<rparr>)) =
           fst (upgrade (Some pairs) s) \<and>
         clients (snd (upgrade (Some pairs) (s\<lparr>db := (db s)\<lparr>users := us, sessions := ses\<rparr>\<rparr>))) =
           clients (snd (upgrade (Some pairs) s)) \<and>
         delivered (snd (upgrade (Some pairs) (s\<lparr>db := (db s)\<lparr>users := us, sessions := ses\<rparr>\<rparr>))) =
           delivered (snd (upgrade (Some pairs) s)) \<and>
         (case ObjectId v of
            Inl e \<Rightarrow>
              fst (upgrade (Some pairs) s) = Inr (Connected (wsCount s) (Inl e)) \<and>
              delivered (snd (upgrade (Some pairs) s)) = delivered s \<and>
              sendAllTimersMsg v s' = (Inl e, s') \<and> sendActiveTimersMsg v s' = (Inl e, s')
          | Inr uid \<Rightarrow>
              fst (upgrade (Some pairs) s) = Inr (Connected (wsCount s) (Inr ())) \<and>
              (\<exists>m. delivered (snd (upgrade (Some pairs) s)) = delivered s @ [(wsCount s, m)] \<and>
                   all_push (snd (upgrade (Some pairs) s)) v (wsCount s, m)) \<and>
              (map_of (clients s') v = Some (wsCount s) \<longrightarrow>
                 fst (sendAllTimersMsg v s') = Inr () \<and>
                 (\<exists>m. delivered (snd (sendAllTimersMsg v s')) = delivered s' @ [(wsCount s, m)] \<and>
                      all_push s' v (wsCount s, m)) \<and>
                 fst (sendActiveTimersMsg v s') = Inr () \<and>
                 (\<exists>m. delivered (snd (sendActiveTimersMsg v s')) = delivered s' @ [(wsCount s, m)] \<and>
                      active_push s' v (wsCount s, m))))"
proof -
  have reg: "map_of (clients (snd (upgrade (Some pairs) s))) v = Some (wsCount s)"
    using registered_step [OF v, of s] by simp
  note acc = upgrade_accounts [where h = "Some pairs" and s = s and us = us and ses = ses]
  have push: "case ObjectId v of
            Inl e \<Rightarrow>
              fst (upgrade (Some pairs) s) = Inr (Connected (wsCount s) (Inl e)) \<and>
              delivered (snd (upgrade (Some pairs) s)) = delivered s \<and>
              sendAllTimersMsg v s' = (Inl e, s') \<and> sendActiveTimersMsg v s' = (Inl e, s')
          | Inr uid \<Rightarrow>
              fst (upgrade (Some pairs) s) = Inr (Connected (wsCount s) (Inr ())) \<and>
              (\<exists>m. delivered (snd (upgrade (Some pairs) s)) = delivered s @ [(wsCount s, m)] \<and>
                   all_push (snd (upgrade (Some pairs) s)) v (wsCount s, m)) \<and>
              (map_of (clients s') v = Some (wsCount s) \<longrightarrow>
                 fst (sendAllTimersMsg v s') = Inr () \<and>
                 (\<exists>m. delivered (snd (sendAllTimersMsg v s')) = delivered s' @ [(wsCount s, m)] \<and>
                      all_push s' v (wsCount s, m)) \<and>
                 fst (sendActiveTimersMsg v s') = Inr () \<and>
                 (\<exists>m. delivered (snd (sendActiveTimersMsg v s')) = delivered s' @ [(wsCount s, m)] \<and>
                      active_push s' v (wsCount s, m)))"
  proof (cases "ObjectId v")
    case (Inl e)
    with upgrade_push [OF v, of s] show ?thesis
      by (simp add: sendAllTimersMsg_invalid sendActiveTimersMsg_invalid)
  next
    case (Inr uid)
    have later: "fst (sendAllTimersMsg v s') = Inr () \<and>
                 (\<exists>m. delivered (snd (sendAllTimersMsg v s')) = delivered s' @ [(wsCount s, m)] \<and>
                      all_push s' v (wsCount s, m)) \<and>
                 fst (sendActiveTimersMsg v s') = Inr () \<and>
                 (\<exists>m. delivered (snd (sendActiveTimersMsg v s')) = delivered s' @ [(wsCount s, m)] \<and>
                      active_push s' v (wsCount s, m))"
      if "map_of (clients s') v = Some (wsCount s)"
      using sendAllTimersMsg_delivers [OF Inr that] sendActiveTimersMsg_delivers [OF Inr that]
      by blast
    with upgrade_push [OF v, of s] Inr show ?thesis
      by simp
  qed
  from reg acc push show ?thesis by blast
qed

theorem client_asserted_channel_witness:
  "map_of (clients (snd (upgrade (Some [(''userId'', toString bob)]) server1))) (toString bob) = Some 1 \<and>
   clients (snd (upgrade (Some [(''userId'', toString bob)])
      (server1\<lparr>db := (db server1)\<lparr>users := [], sessions := []\<rparr>\<rparr>))) =
     clients (snd (upgrade (Some [(''userId'', toString bob)]) server1)) \<and>
   fst (upgrade (Some [(''userId'', toString bob)]) server1) = Inr (Connected 1 (Inr ())) \<and>
   (\<exists>m. delivered (snd (upgrade (Some [(''userId'', toString bob)]) server1)) =
          delivered server1 @ [(1, m)] \<and> msg_type m = all_timers) \<and>
   fst (sendActiveTimersMsg (toString bob) (snd (upgrade (Some [(''userId'', toString bob)]) server1))) =
     Inr ()"
proof -
  have h1: "map_of [(''userId'', toString bob)] ''userId'' = Some (toString bob)"
    by simp
  have h2: "toString bob \<noteq> []"
    by (simp add: example_evals)
  have h3: "ObjectId (toString bob) = Inr bob"
    by (simp add: example_evals)
  have h4: "wsCount server1 = 1"
    by (simp add: server1_state)
  have h5: "map_of (clients (snd (upgrade (Some [(''userId'', toString bob)]) server1))) (toString bob) =
              Some (wsCount server1)"
    using registered_step [OF h1 h2, of server1] by simp
  show ?thesis
    using client_asserted_channel [OF h1 h2, where s = server1 and us = "[]" and ses = "[]"
        and s' = "snd (upgrade (Some [(''userId'', toString bob)]) server1)"] h3 h4 h5
    by (auto simp: all_push_def)
qed

end
